theory Spec2Isabelle
  imports Complex_Main
begin

section \<open>Industrial defect detection: the detector and the report generator\<close>

text \<open>
  A shallow embedding of \<^verbatim>\<open>src/defect_detector.py\<close> (class DefectDetector) and of
  \<^verbatim>\<open>src/report_generator.py\<close> (class ReportGenerator).

  Numbers. Python floats are modelled as \<^typ>\<open>real\<close>: the comparisons of the source
  are exact on floats, and the rounding of float multiplication, division and addition
  is not modelled. Python ints are \<^typ>\<open>int\<close>. Decimal literals of the source
  (0.1, 0.33, 0.7, 0.3, 3.0) stand for their decimal values.

  Strings are byte strings; the one non-ASCII character of the source, the superscript
  two of the unit, is written as its two UTF-8 bytes.
\<close>

subsection \<open>The classifier: \<^verbatim>\<open>DefectDetector._classify_defect\<close>\<close>

text \<open>
  An if/elif chain of six branches, each returning a string. The parameters keep the
  names of the source.
\<close>

definition classify_defect :: "real \<Rightarrow> real \<Rightarrow> real \<Rightarrow> string" where
  "classify_defect = (\<lambda>area_mm aspect_ratio circularity.
     if aspect_ratio > 3.0 \<or> aspect_ratio < 0.33 then ''Crack''
     else if circularity > 0.7 then ''Hole''
     else if circularity < 0.3 then ''Irregular Shape''
     else if 10 < area_mm \<and> area_mm < 50 then ''Misalignment''
     else if area_mm > 50 then ''Large Defect''
     else ''Small Defect'')"

subsection \<open>Errors and Python arithmetic\<close>

text \<open>
  An exception is a value. \<open>ZeroDivisionError\<close> is what Python's \<^verbatim>\<open>/\<close> raises on a
  zero divisor; \<open>Cv2Error\<close> stands for any \<^verbatim>\<open>cv2.error\<close> raised inside OpenCV.
\<close>

datatype error = ZeroDivisionError | Cv2Error

definition bind_err :: "error + 'a \<Rightarrow> ('a \<Rightarrow> error + 'b) \<Rightarrow> error + 'b" where
  "bind_err m f = (case m of Inl e \<Rightarrow> Inl e | Inr v \<Rightarrow> f v)"

definition py_truediv :: "real \<Rightarrow> real \<Rightarrow> error + real" where
  "py_truediv a b = (if b = 0 then Inl ZeroDivisionError else Inr (a / b))"

text \<open>Python's \<^verbatim>\<open>sum\<close>: a left fold that starts from 0.\<close>

definition py_sum :: "real list \<Rightarrow> real" where
  "py_sum xs = foldl (+) 0 xs"

subsection \<open>Fixed-point formatting: \<^verbatim>\<open>f"{x:.2f}"\<close> and \<^verbatim>\<open>f"{x:.1f}"\<close>\<close>

text \<open>
  The decimal digits of a natural number, and the format specification \<^verbatim>\<open>.pf\<close>: the
  value is rounded to \<open>p\<close> decimals (a tie goes to the even neighbour), the sign is
  that of the value itself, and the fraction is padded with zeros to \<open>p\<close> digits
  (no point and no fraction when \<open>p\<close> is 0).
\<close>

definition digit_char :: "nat \<Rightarrow> char" where
  "digit_char d = ''0123456789'' ! d"

fun str_nat :: "nat \<Rightarrow> string" where
  "str_nat n = (if n < 10 then [digit_char n] else str_nat (n div 10) @ [digit_char (n mod 10)])"

declare str_nat.simps [simp del]

definition round_half_even :: "real \<Rightarrow> int" where
  "round_half_even x =
     (let f = \<lfloor>x\<rfloor>; d = x - of_int f
      in if d < 1 / 2 then f else if d > 1 / 2 then f + 1 else if even f then f else f + 1)"

definition zero_pad :: "nat \<Rightarrow> string \<Rightarrow> string" where
  "zero_pad p s = replicate (p - length s) (CHR ''0'') @ s"

definition format_fixed :: "nat \<Rightarrow> real \<Rightarrow> string" where
  "format_fixed p x =
     (let n = nat (round_half_even (\<bar>x\<bar> * 10 ^ p));
          ip = n div 10 ^ p;
          fp = n mod 10 ^ p
      in (if x < 0 then ''-'' else []) @ str_nat ip
         @ (if p = 0 then [] else ''.'' @ zero_pad p (str_nat fp)))"

subsection \<open>Dictionaries that keep insertion order\<close>

text \<open>
  A Python dict is an association list with distinct keys, in insertion order:
  \<^verbatim>\<open>d.get(k, default)\<close> and \<^verbatim>\<open>d[k] = v\<close>, which keeps the position of a key that
  is already there and appends a new one.
\<close>

definition dict_get :: "('k \<times> 'v) list \<Rightarrow> 'k \<Rightarrow> 'v \<Rightarrow> 'v" where
  "dict_get d k dflt = (case map_of d k of Some v \<Rightarrow> v | None \<Rightarrow> dflt)"

fun dict_set :: "('k \<times> 'v) list \<Rightarrow> 'k \<Rightarrow> 'v \<Rightarrow> ('k \<times> 'v) list" where
  "dict_set [] k v = [(k, v)]"
| "dict_set ((k', v') # d) k v =
     (if k' = k then (k, v) # d else (k', v') # dict_set d k v)"

subsection \<open>Images in a store\<close>

text \<open>
  A numpy array is a mutable object reached through a reference. The store maps
  references to image values; \<open>next_ref\<close> is the first reference not yet in use.
  \<^verbatim>\<open>image.copy()\<close> allocates a new array with the same content; the drawing functions
  of OpenCV write into the array they are given.
\<close>

record 'img heap =
  cells :: "nat \<Rightarrow> 'img"
  next_ref :: nat

definition alloc :: "'img \<Rightarrow> 'img heap \<Rightarrow> nat \<times> 'img heap" where
  "alloc v hp = (next_ref hp, hp\<lparr>cells := (cells hp)(next_ref hp := v), next_ref := Suc (next_ref hp)\<rparr>)"

definition ndarray_copy :: "nat \<Rightarrow> 'img heap \<Rightarrow> nat \<times> 'img heap" where
  "ndarray_copy r hp = alloc (cells hp r) hp"

definition update_cell :: "nat \<Rightarrow> ('img \<Rightarrow> 'img) \<Rightarrow> 'img heap \<Rightarrow> 'img heap" where
  "update_cell r f hp = hp\<lparr>cells := (cells hp)(r := f (cells hp r))\<rparr>"

subsection \<open>The OpenCV functions the detector calls\<close>

text \<open>
  OpenCV is not part of the repository: the functions the detector calls are
  parameters of the model, one field each, with the arguments the source passes. The
  five functions of the extraction pipeline return a new array or raise; the three
  measurements of a contour return a number; the three drawing functions take the
  content of the array they write into and give its new content.
\<close>

type_synonym contour = "(int \<times> int) list"
type_synonym color = "int \<times> int \<times> int"
type_synonym rect = "int \<times> int \<times> int \<times> int"

record 'img cv2 =
  cvtColor_BGR2GRAY :: "'img \<Rightarrow> error + 'img"
  GaussianBlur :: "'img \<Rightarrow> nat \<times> nat \<Rightarrow> real \<Rightarrow> error + 'img"
  Canny :: "'img \<Rightarrow> int \<Rightarrow> int \<Rightarrow> error + 'img"
  dilate :: "'img \<Rightarrow> nat \<times> nat \<Rightarrow> nat \<Rightarrow> error + 'img"
  findContours_EXTERNAL_SIMPLE :: "'img \<Rightarrow> error + contour list"
  contourArea :: "contour \<Rightarrow> real"
  boundingRect :: "contour \<Rightarrow> rect"
  arcLength :: "contour \<Rightarrow> bool \<Rightarrow> real"
  drawContours :: "'img \<Rightarrow> contour list \<Rightarrow> int \<Rightarrow> color \<Rightarrow> int \<Rightarrow> 'img"
  rectangle :: "'img \<Rightarrow> int \<times> int \<Rightarrow> int \<times> int \<Rightarrow> color \<Rightarrow> int \<Rightarrow> 'img"
  putText :: "'img \<Rightarrow> string \<Rightarrow> int \<times> int \<Rightarrow> real \<Rightarrow> color \<Rightarrow> int \<Rightarrow> 'img"

subsection \<open>The detector: configuration, colours, results\<close>

record detector =
  min_defect_size :: real
  edge_threshold1 :: int
  edge_threshold2 :: int

definition DefectDetector_init :: "real \<Rightarrow> int \<Rightarrow> int \<Rightarrow> detector" where
  "DefectDetector_init m t1 t2 =
     \<lparr>min_defect_size = m, edge_threshold1 = t1, edge_threshold2 = t2\<rparr>"

definition DefectDetector_default :: detector where
  "DefectDetector_default = DefectDetector_init 5.0 50 150"

definition update_thresholds :: "int \<Rightarrow> int \<Rightarrow> detector \<Rightarrow> detector" where
  "update_thresholds threshold1 threshold2 self =
     self\<lparr>edge_threshold1 := threshold1, edge_threshold2 := threshold2\<rparr>"

definition update_min_defect_size :: "real \<Rightarrow> detector \<Rightarrow> detector" where
  "update_min_defect_size size_mm self = self\<lparr>min_defect_size := size_mm\<rparr>"

definition colors :: "(string \<times> color) list" where
  "colors =
     [(''Crack'', (0, 0, 255)),
      (''Hole'', (255, 0, 0)),
      (''Irregular Shape'', (0, 165, 255)),
      (''Misalignment'', (0, 255, 255)),
      (''Large Defect'', (255, 0, 255)),
      (''Small Defect'', (0, 255, 0))]"

definition get_defect_color :: "string \<Rightarrow> color" where
  "get_defect_color defect_type = dict_get colors defect_type (255, 255, 255)"

record defect =
  type :: string
  area_mm :: real
  area_pixels :: real
  bbox :: rect
  aspect_ratio :: real
  circularity :: real
  contour :: contour

record statistics =
  total_defects :: int
  total_area_mm :: real
  defect_types :: "(string \<times> int) list"
  pass :: bool
  fail :: bool

record detection_result =
  defects :: "defect list"
  annotated_image :: nat
  statistics :: statistics

text \<open>The superscript two of the label and of the report, in UTF-8.\<close>

definition sup2 :: string where
  "sup2 = [CHR 0xC2, CHR 0xB2]"

subsection \<open>\<^verbatim>\<open>DefectDetector.detect_defects\<close>\<close>

text \<open>Lines 37 to 51: grey scale, blur, edges, dilation, external contours.\<close>

definition extract_contours :: "'img cv2 \<Rightarrow> detector \<Rightarrow> 'img \<Rightarrow> error + contour list" where
  "extract_contours cv self img =
     bind_err (cvtColor_BGR2GRAY cv img) (\<lambda>gray.
     bind_err (GaussianBlur cv gray (5, 5) 0) (\<lambda>blurred.
     bind_err (Canny cv blurred (edge_threshold1 self) (edge_threshold2 self)) (\<lambda>edges.
     bind_err (dilate cv edges (3, 3) 1) (\<lambda>dilated.
     findContours_EXTERNAL_SIMPLE cv dilated))))"

text \<open>
  Lines 94 to 102: the three drawing calls for one defect, each writing into the array
  that \<open>annotated_image\<close> refers to.
\<close>

definition draw_defect ::
  "'img cv2 \<Rightarrow> nat \<Rightarrow> contour \<Rightarrow> rect \<Rightarrow> string \<Rightarrow> real \<Rightarrow> 'img heap \<Rightarrow> 'img heap" where
  "draw_defect cv = (\<lambda>annotated_image contour (x, y, w, h) defect_type area_mm hp.
     let color = get_defect_color defect_type;
         hp = update_cell annotated_image
                (\<lambda>im. drawContours cv im [contour] (- 1) color 2) hp;
         hp = update_cell annotated_image
                (\<lambda>im. rectangle cv im (x, y) (x + w, y + h) color 2) hp;
         label = defect_type @ '': '' @ format_fixed 1 area_mm @ ''mm'' @ sup2
     in update_cell annotated_image
          (\<lambda>im. putText cv im label (x, y - 10) 0.5 color 2) hp)"

text \<open>
  Lines 58 to 92: the body of the loop over the contours. Its state is the list
  \<open>defects\<close> and the store; \<open>annotated_image\<close> is the reference of the copy.
\<close>

definition contour_step ::
  "'img cv2 \<Rightarrow> detector \<Rightarrow> nat \<Rightarrow> contour \<Rightarrow> defect list \<times> 'img heap
     \<Rightarrow> error + defect list \<times> 'img heap" where
  "contour_step cv self = (\<lambda>annotated_image contour (defects, hp).
     let area_pixels = contourArea cv contour;
         area_mm = area_pixels * 0.1
     in if area_mm < min_defect_size self then Inr (defects, hp)
        else (case boundingRect cv contour of (x, y, w, h) \<Rightarrow>
          bind_err (if h > 0 then py_truediv (of_int w) (of_int h) else Inr 0)
            (\<lambda>aspect_ratio.
          let perimeter = arcLength cv contour True
          in bind_err (if perimeter > 0
                       then py_truediv (4 * pi * area_pixels) (perimeter * perimeter)
                       else Inr 0)
            (\<lambda>circularity.
          let defect_type = classify_defect area_mm aspect_ratio circularity;
              defect = \<lparr>type = defect_type, area_mm = area_mm, area_pixels = area_pixels,
                        bbox = (x, y, w, h), aspect_ratio = aspect_ratio,
                        circularity = circularity, contour = contour\<rparr>;
              defects = defects @ [defect];
              hp = draw_defect cv annotated_image contour (x, y, w, h) defect_type area_mm hp
          in Inr (defects, hp)))))"

fun for_contours ::
  "'img cv2 \<Rightarrow> detector \<Rightarrow> nat \<Rightarrow> contour list \<Rightarrow> defect list \<times> 'img heap
     \<Rightarrow> error + defect list \<times> 'img heap" where
  "for_contours cv self ann [] st = Inr st"
| "for_contours cv self ann (c # cs) st =
     bind_err (contour_step cv self ann c st) (for_contours cv self ann cs)"

text \<open>Lines 107 to 110: the count of each type, in a dict.\<close>

definition count_types :: "defect list \<Rightarrow> (string \<times> int) list" where
  "count_types ds =
     foldl (\<lambda>defect_types defect.
              let defect_type = type defect
              in dict_set defect_types defect_type (dict_get defect_types defect_type 0 + 1))
       [] ds"

definition detect_defects ::
  "'img cv2 \<Rightarrow> detector \<Rightarrow> nat \<Rightarrow> 'img heap \<Rightarrow> error + detection_result \<times> 'img heap" where
  "detect_defects cv self image_ref hp0 =
     bind_err (extract_contours cv self (cells hp0 image_ref)) (\<lambda>contours.
     let (annotated_image, hp1) = ndarray_copy image_ref hp0 in
     bind_err (for_contours cv self annotated_image contours ([], hp1)) (\<lambda>(defects, hp2).
     let total_defects = int (length defects);
         total_area = py_sum (map area_mm defects);
         defect_types = count_types defects
     in Inr (\<lparr>defects = defects,
              annotated_image = annotated_image,
              statistics = \<lparr>total_defects = total_defects,
                            total_area_mm = total_area,
                            defect_types = defect_types,
                            pass = (total_defects = 0),
                            fail = (total_defects > 0)\<rparr>\<rparr>, hp2)))"

subsection \<open>\<^verbatim>\<open>ReportGenerator.generate_report\<close>\<close>

text \<open>
  The report is the sequence of rows handed to \<^verbatim>\<open>csv.writer.writerow\<close>, in order; a cell
  is a string or an int. The two time stamps come from the clock and are a parameter
  (\<open>generated\<close> is the one written into the report). The choice of the output path
  and the opening of the file are not modelled: they do not touch the rows.
\<close>

datatype cell = S string | I int

type_synonym row = "cell list"

definition writerow :: "row \<Rightarrow> row list \<Rightarrow> row list" where
  "writerow r f = f @ [r]"

text \<open>Lines 65 and 66: one row for each item of \<^verbatim>\<open>defect_types\<close>.\<close>

fun write_breakdown :: "(string \<times> int) list \<Rightarrow> row list \<Rightarrow> row list" where
  "write_breakdown [] f = f"
| "write_breakdown ((defect_type, cnt) # items) f =
     write_breakdown items (writerow [S defect_type, I cnt] f)"

text \<open>Lines 76 to 86: \<^verbatim>\<open>for i, defect in enumerate(defects, 1)\<close>.\<close>

fun write_defect_rows :: "int \<Rightarrow> defect list \<Rightarrow> row list \<Rightarrow> row list" where
  "write_defect_rows i [] f = f"
| "write_defect_rows i (d # rest) f =
     (case bbox d of (x, y, w, h) \<Rightarrow>
        write_defect_rows (i + 1) rest
          (writerow
             [I i,
              S (type d),
              S (format_fixed 2 (area_mm d)),
              S (format_fixed 2 (area_pixels d)),
              I x, I y, I w, I h,
              S (format_fixed 2 (aspect_ratio d)),
              S (format_fixed 2 (circularity d))] f))"

definition generate_report :: "string \<Rightarrow> string \<Rightarrow> detection_result \<Rightarrow> row list" where
  "generate_report generated image_name detection_results =
     (let defects = defects detection_results;
          statistics = statistics detection_results;
          f = [];
          f = writerow [S ''Industrial Defect Detection Report''] f;
          f = writerow [S ''Generated:'', S generated] f;
          f = writerow [S ''Image:'', S image_name] f;
          f = writerow [] f;
          f = writerow [S ''Summary''] f;
          f = writerow [S ''Total Defects:'', I (total_defects statistics)] f;
          f = writerow [S (''Total Defect Area (mm'' @ sup2 @ ''):''),
                        S (format_fixed 2 (total_area_mm statistics))] f;
          f = writerow [S ''Status:'', S (if pass statistics then ''PASS'' else ''FAIL'')] f;
          f = writerow [] f;
          f = writerow [S ''Defect Types Breakdown''] f;
          f = write_breakdown (defect_types statistics) f;
          f = writerow [] f;
          f = writerow [S ''Detailed Defect List''] f;
          f = writerow
                [S ''ID'', S ''Type'', S (''Area (mm'' @ sup2 @ '')''), S ''Area (pixels)'',
                 S ''X'', S ''Y'', S ''Width'', S ''Height'', S ''Aspect Ratio'',
                 S ''Circularity''] f;
          f = write_defect_rows 1 defects f
      in f)"

text \<open>
  Reading a rendered number back: the value of a digit string, and the test that a
  text is an optional minus sign, at least one digit, a point and exactly \<open>p\<close> digits.
\<close>

definition is_digit :: "char \<Rightarrow> bool" where
  "is_digit ch = (ch \<in> set ''0123456789'')"

definition digit_val :: "char \<Rightarrow> nat" where
  "digit_val ch = (if is_digit ch then of_char ch - 48 else 0)"

definition digits_val :: "string \<Rightarrow> nat" where
  "digits_val s = foldl (\<lambda>a ch. 10 * a + digit_val ch) 0 s"

definition fixed_text :: "nat \<Rightarrow> string \<Rightarrow> bool" where
  "fixed_text p s =
     (let body = (if s \<noteq> [] \<and> hd s = CHR ''-'' then tl s else s);
          k = length body - Suc p;
          ip = take k body;
          sep = drop k body
      in p < length body \<and> ip \<noteq> [] \<and> list_all is_digit ip
         \<and> hd sep = CHR ''.'' \<and> list_all is_digit (tl sep))"

definition fixed_value :: "nat \<Rightarrow> string \<Rightarrow> real" where
  "fixed_value p s =
     (let neg = (s \<noteq> [] \<and> hd s = CHR ''-'');
          body = (if neg then tl s else s);
          k = length body - Suc p;
          v = real (digits_val (take k body))
              + real (digits_val (drop (Suc k) body)) / 10 ^ p
      in if neg then - v else v)"

subsection \<open>A sample run\<close>

text \<open>
  Five contours and the measurements OpenCV reports for them: a thin strip, a speck
  below the size threshold, an L-shaped blob, a strip whose area is exactly at the
  default threshold, and a thin hook. An image is the list of what was drawn on it.
\<close>

definition sample_thin :: contour where
  "sample_thin = [(0, 0), (60, 0), (60, 2), (0, 2)]"

definition sample_noise :: contour where
  "sample_noise = [(5, 5), (6, 5), (6, 6), (5, 6)]"

definition sample_ell :: contour where
  "sample_ell = [(100, 100), (124, 100), (124, 110), (110, 110), (110, 126), (100, 126)]"

definition sample_edge :: contour where
  "sample_edge = [(10, 10), (35, 10), (35, 12), (10, 12)]"

definition sample_hook :: contour where
  "sample_hook = [(200, 50), (225, 50), (225, 52), (202, 52), (202, 75), (200, 75)]"

definition sample_contours :: "contour list" where
  "sample_contours = [sample_thin, sample_noise, sample_ell, sample_edge, sample_hook]"

definition sample_area :: "contour \<Rightarrow> real" where
  "sample_area c =
     (if c = sample_thin then 120 else if c = sample_noise then 1
      else if c = sample_ell then 400 else if c = sample_edge then 50
      else if c = sample_hook then 96 else 0)"

definition sample_rect :: "contour \<Rightarrow> rect" where
  "sample_rect c =
     (if c = sample_thin then (0, 0, 61, 3) else if c = sample_noise then (5, 5, 2, 2)
      else if c = sample_ell then (100, 100, 25, 27) else if c = sample_edge then (10, 10, 26, 3)
      else if c = sample_hook then (200, 50, 26, 26) else (0, 0, 0, 0))"

definition sample_length :: "contour \<Rightarrow> bool \<Rightarrow> real" where
  "sample_length c is_closed =
     (if c = sample_thin then 124 else if c = sample_noise then 4
      else if c = sample_ell then 100 else if c = sample_edge then 54
      else if c = sample_hook then 100 else 0)"

definition sample_cv2 :: "string list cv2" where
  "sample_cv2 =
     \<lparr>cvtColor_BGR2GRAY = Inr,
      GaussianBlur = (\<lambda>im ksize sigma. Inr im),
      Canny = (\<lambda>im t1 t2. Inr im),
      dilate = (\<lambda>im kernel iterations. Inr im),
      findContours_EXTERNAL_SIMPLE = (\<lambda>im. Inr sample_contours),
      contourArea = sample_area,
      boundingRect = sample_rect,
      arcLength = sample_length,
      drawContours = (\<lambda>im cs idx col thickness. im @ [''contour'']),
      rectangle = (\<lambda>im p q col thickness. im @ [''rectangle'']),
      putText = (\<lambda>im label org scale col thickness. im @ [label])\<rparr>"

definition sample_heap :: "string list heap" where
  "sample_heap = \<lparr>cells = (\<lambda>r. []), next_ref = 1\<rparr>"

definition sample_defects :: "defect list" where
  "sample_defects =
     [\<lparr>type = ''Crack'', area_mm = 12, area_pixels = 120, bbox = (0, 0, 61, 3),
       aspect_ratio = 61 / 3, circularity = 4 * pi * 120 / (124 * 124),
       contour = sample_thin\<rparr>,
      \<lparr>type = ''Misalignment'', area_mm = 40, area_pixels = 400, bbox = (100, 100, 25, 27),
       aspect_ratio = 25 / 27, circularity = 4 * pi * 400 / (100 * 100),
       contour = sample_ell\<rparr>,
      \<lparr>type = ''Crack'', area_mm = 5, area_pixels = 50, bbox = (10, 10, 26, 3),
       aspect_ratio = 26 / 3, circularity = 4 * pi * 50 / (54 * 54),
       contour = sample_edge\<rparr>,
      \<lparr>type = ''Irregular Shape'', area_mm = 9.6, area_pixels = 96, bbox = (200, 50, 26, 26),
       aspect_ratio = 1, circularity = 4 * pi * 96 / (100 * 100),
       contour = sample_hook\<rparr>]"

definition sample_result :: detection_result where
  "sample_result =
     \<lparr>defects = sample_defects,
      annotated_image = 1,
      statistics =
        \<lparr>total_defects = 4, total_area_mm = 66.6,
         defect_types = [(''Crack'', 2), (''Misalignment'', 1), (''Irregular Shape'', 1)],
         pass = False, fail = True\<rparr>\<rparr>"

definition sample_heap_after :: "string list heap" where
  "sample_heap_after =
     \<lparr>cells = (\<lambda>r. [])
        (1 := [''contour'', ''rectangle'', ''Crack: 12.0mm'' @ sup2,
               ''contour'', ''rectangle'', ''Misalignment: 40.0mm'' @ sup2,
               ''contour'', ''rectangle'', ''Crack: 5.0mm'' @ sup2,
               ''contour'', ''rectangle'', ''Irregular Shape: 9.6mm'' @ sup2]),
      next_ref = 2\<rparr>"

text \<open>The same backend on a part without any contour.\<close>

definition clean_cv2 :: "string list cv2" where
  "clean_cv2 = sample_cv2\<lparr>findContours_EXTERNAL_SIMPLE := (\<lambda>im. Inr [])\<rparr>"

definition clean_result :: detection_result where
  "clean_result =
     \<lparr>defects = [],
      annotated_image = 1,
      statistics =
        \<lparr>total_defects = 0, total_area_mm = 0, defect_types = [],
         pass = True, fail = False\<rparr>\<rparr>"

definition clean_heap_after :: "string list heap" where
  "clean_heap_after = \<lparr>cells = (\<lambda>r. [])(1 := []), next_ref = 2\<rparr>"

text \<open>
  The same backend on a single point with no extent: no height, no perimeter, no area.
  It passes the size filter once \<open>min_defect_size\<close> is set to 0.
\<close>

definition degenerate_cv2 :: "string list cv2" where
  "degenerate_cv2 = sample_cv2\<lparr>findContours_EXTERNAL_SIMPLE := (\<lambda>im. Inr [[(7, 7)]])\<rparr>"

definition degenerate_result :: detection_result where
  "degenerate_result =
     \<lparr>defects =
        [\<lparr>type = ''Crack'', area_mm = 0, area_pixels = 0, bbox = (0, 0, 0, 0),
          aspect_ratio = 0, circularity = 0, contour = [(7, 7)]\<rparr>],
      annotated_image = 1,
      statistics =
        \<lparr>total_defects = 1, total_area_mm = 0, defect_types = [(''Crack'', 1)],
         pass = False, fail = True\<rparr>\<rparr>"

definition degenerate_heap_after :: "string list heap" where
  "degenerate_heap_after =
     \<lparr>cells = (\<lambda>r. [])(1 := [''contour'', ''rectangle'', ''Crack: 0.0mm'' @ sup2]),
      next_ref = 2\<rparr>"

text \<open>A detection result for the report, with measurements that are decimal numbers.\<close>

definition report_input :: detection_result where
  "report_input =
     \<lparr>defects =
        [\<lparr>type = ''Crack'', area_mm = 12, area_pixels = 120, bbox = (0, 0, 61, 3),
          aspect_ratio = 20.33, circularity = 0.098, contour = sample_thin\<rparr>,
         \<lparr>type = ''Hole'', area_mm = 31.45, area_pixels = 314.5, bbox = (40, 40, 21, 21),
          aspect_ratio = 1, circularity = 0.9, contour = []\<rparr>],
      annotated_image = 1,
      statistics =
        \<lparr>total_defects = 2, total_area_mm = 43.45,
         defect_types = [(''Crack'', 1), (''Hole'', 1)],
         pass = False, fail = True\<rparr>\<rparr>"

section \<open>Auxiliary facts\<close>


lemma bind_err_Inr [simp]: "bind_err (Inr v) f = f v"
  by (simp add: bind_err_def)

lemma bind_err_Inl [simp]: "bind_err (Inl e) f = Inl e"
  by (simp add: bind_err_def)

lemma bind_err_eq_Inr:
  "bind_err m f = Inr r \<longleftrightarrow> (\<exists>v. m = Inr v \<and> f v = Inr r)"
  by (cases m) simp_all

lemma py_truediv_nonzero: "b \<noteq> 0 \<Longrightarrow> py_truediv a b = Inr (a / b)"
  by (simp add: py_truediv_def)

lemma contour_step_skip:
  "contourArea cv c * 0.1 < min_defect_size self \<Longrightarrow>
   contour_step cv self ann c (ds, hp) = Inr (ds, hp)"
  by (simp add: contour_step_def Let_def)

lemma contour_step_keep:
  assumes "\<not> contourArea cv c * 0.1 < min_defect_size self"
    and "boundingRect cv c = (x, y, w, h)"
  shows "\<exists>d. contour_step cv self ann c (ds, hp)
         = Inr (ds @ [d], draw_defect cv ann c (x, y, w, h) (type d) (area_mm d) hp)
     \<and> contour d = c
     \<and> area_pixels d = contourArea cv c
     \<and> area_mm d = contourArea cv c * 0.1
     \<and> bbox d = (x, y, w, h)
     \<and> aspect_ratio d = (if h > 0 then real_of_int w / real_of_int h else 0)
     \<and> circularity d =
         (if arcLength cv c True > 0
          then 4 * pi * contourArea cv c / (arcLength cv c True * arcLength cv c True)
          else 0)
     \<and> type d = classify_defect (area_mm d) (aspect_ratio d) (circularity d)"
proof -
  let ?ar = "if h > 0 then real_of_int w / real_of_int h else 0"
  let ?ci = "if arcLength cv c True > 0
          then 4 * pi * contourArea cv c / (arcLength cv c True * arcLength cv c True)
          else 0"
  let ?d = "\<lparr>type = classify_defect (contourArea cv c * 0.1) ?ar ?ci,
            area_mm = contourArea cv c * 0.1, area_pixels = contourArea cv c,
            bbox = (x, y, w, h), aspect_ratio = ?ar, circularity = ?ci, contour = c\<rparr>"
  have "contour_step cv self ann c (ds, hp)
         = Inr (ds @ [?d], draw_defect cv ann c (x, y, w, h) (type ?d) (area_mm ?d) hp)"
    using assms by (simp add: contour_step_def Let_def py_truediv_def)
  then show ?thesis
    by (intro exI [of _ ?d]) simp
qed

lemma contour_step_total:
  "\<exists>st'. contour_step cv self ann c st = Inr st'"
proof (cases st)
  case (Pair ds hp)
  show ?thesis
  proof (cases "contourArea cv c * 0.1 < min_defect_size self")
    case True
    then show ?thesis unfolding Pair by (simp add: contour_step_skip)
  next
    case False
    obtain x y w h where "boundingRect cv c = (x, y, w, h)"
      by (cases "boundingRect cv c") auto
    from contour_step_keep [OF False this, of ann ds hp] show ?thesis
      unfolding Pair by blast
  qed
qed

lemma for_contours_total:
  "\<exists>st'. for_contours cv self ann cs st = Inr st'"
proof (induction cs arbitrary: st)
  case Nil
  show ?case by simp
next
  case (Cons c cs)
  from contour_step_total [of cv self ann c st]
  obtain st1 where "contour_step cv self ann c st = Inr st1" by blast
  with Cons.IH [of st1] show ?case by simp
qed

lemma for_contours_spec:
  assumes "for_contours cv self ann cs (ds, hp) = Inr (ds', hp')"
  shows "\<exists>new. ds' = ds @ new
     \<and> map contour new = filter (\<lambda>c. min_defect_size self \<le> contourArea cv c * 0.1) cs
     \<and> hp' = foldl (\<lambda>h d. draw_defect cv ann (contour d) (bbox d) (type d) (area_mm d) h) hp new
     \<and> (\<forall>d \<in> set new.
           area_pixels d = contourArea cv (contour d)
         \<and> area_mm d = contourArea cv (contour d) * 0.1
         \<and> bbox d = boundingRect cv (contour d)
         \<and> aspect_ratio d =
             (if snd (snd (snd (bbox d))) > 0
              then real_of_int (fst (snd (snd (bbox d)))) / real_of_int (snd (snd (snd (bbox d))))
              else 0)
         \<and> circularity d =
             (if arcLength cv (contour d) True > 0
              then 4 * pi * contourArea cv (contour d)
                   / (arcLength cv (contour d) True * arcLength cv (contour d) True)
              else 0)
         \<and> type d = classify_defect (area_mm d) (aspect_ratio d) (circularity d))"
    (is "\<exists>new. _ \<and> _ \<and> _ \<and> (\<forall>d \<in> set new. ?ok d)")
  using assms
proof (induction cs arbitrary: ds hp)
  case Nil
  then show ?case by simp
next
  case (Cons c cs)
  let ?keep = "\<lambda>c. min_defect_size self \<le> contourArea cv c * 0.1"
  let ?draw = "\<lambda>h d. draw_defect cv ann (contour d) (bbox d) (type d) (area_mm d) h"
  from Cons.prems obtain st1 where
    step: "contour_step cv self ann c (ds, hp) = Inr st1"
    and rest: "for_contours cv self ann cs st1 = Inr (ds', hp')"
    by (auto simp: bind_err_eq_Inr)
  show ?case
  proof (cases "contourArea cv c * 0.1 < min_defect_size self")
    case True
    with step have "st1 = (ds, hp)" by (simp add: contour_step_skip)
    with rest have rest': "for_contours cv self ann cs (ds, hp) = Inr (ds', hp')" by simp
    have keep: "filter ?keep (c # cs) = filter ?keep cs"
      using True by simp
    show ?thesis unfolding keep by (rule Cons.IH [OF rest'])
  next
    case False
    obtain x y w h where br: "boundingRect cv c = (x, y, w, h)"
      by (cases "boundingRect cv c") auto
    from contour_step_keep [OF False br, of ann ds hp]
    obtain d where k: "contour_step cv self ann c (ds, hp)
         = Inr (ds @ [d], draw_defect cv ann c (x, y, w, h) (type d) (area_mm d) hp)"
      and d: "contour d = c" "area_pixels d = contourArea cv c"
      "area_mm d = contourArea cv c * 0.1" "bbox d = (x, y, w, h)"
      "aspect_ratio d = (if h > 0 then real_of_int w / real_of_int h else 0)"
      "circularity d =
         (if arcLength cv c True > 0
          then 4 * pi * contourArea cv c / (arcLength cv c True * arcLength cv c True)
          else 0)"
      "type d = classify_defect (area_mm d) (aspect_ratio d) (circularity d)"
      by blast
    from k step have st1: "st1 = (ds @ [d], ?draw hp d)"
      by (simp add: d(1,4))
    have okd: "?ok d"
      using d br by simp
    have keep: "filter ?keep (c # cs) = c # filter ?keep cs"
      using False by simp
    from Cons.IH [OF rest [unfolded st1]] obtain new where new: "ds' = (ds @ [d]) @ new"
      "map contour new = filter ?keep cs"
      "hp' = foldl ?draw (?draw hp d) new"
      "\<forall>d \<in> set new. ?ok d"
      by blast
    have "ds' = ds @ d # new" using new(1) by simp
    moreover have "map contour (d # new) = filter ?keep (c # cs)"
      unfolding keep using new(2) d(1) by simp
    moreover have "hp' = foldl ?draw hp (d # new)"
      using new(3) by simp
    moreover have "\<forall>e \<in> set (d # new). ?ok e"
      using okd new(4) by (metis set_ConsD)
    ultimately show ?thesis by blast
  qed
qed

lemma draw_defect_frame:
  "next_ref (draw_defect cv ann c r t a hp) = next_ref hp
   \<and> (\<forall>q. q \<noteq> ann \<longrightarrow> cells (draw_defect cv ann c r t a hp) q = cells hp q)"
  by (cases r) (simp add: draw_defect_def update_cell_def Let_def)

lemma foldl_draw_frame:
  "next_ref (foldl (\<lambda>h d. draw_defect cv ann (contour d) (bbox d) (type d) (area_mm d) h) hp ds)
     = next_ref hp
   \<and> (\<forall>q. q \<noteq> ann \<longrightarrow>
        cells (foldl (\<lambda>h d. draw_defect cv ann (contour d) (bbox d) (type d) (area_mm d) h) hp ds) q
          = cells hp q)"
proof (induction ds arbitrary: hp)
  case Nil
  show ?case by simp
next
  case (Cons d ds)
  show ?case
    using Cons.IH [of "draw_defect cv ann (contour d) (bbox d) (type d) (area_mm d) hp"]
      draw_defect_frame [of cv ann "contour d" "bbox d" "type d" "area_mm d" hp]
    by simp
qed

lemma foldl_plus_sum_list: "foldl (+) a xs = (a::real) + sum_list xs"
  by (induction xs arbitrary: a) simp_all

lemma py_sum_sum_list: "py_sum xs = sum_list xs"
  by (simp add: py_sum_def foldl_plus_sum_list)

lemma detect_defects_Inr_iff:
  "detect_defects cv self image_ref hp0 = Inr (res, hp') \<longleftrightarrow>
   (\<exists>contours ds.
      extract_contours cv self (cells hp0 image_ref) = Inr contours
    \<and> for_contours cv self (next_ref hp0) contours
         ([], snd (ndarray_copy image_ref hp0)) = Inr (ds, hp')
    \<and> res = \<lparr>defects = ds, annotated_image = next_ref hp0,
             statistics = \<lparr>total_defects = int (length ds),
                           total_area_mm = py_sum (map area_mm ds),
                           defect_types = count_types ds,
                           pass = (int (length ds) = 0),
                           fail = (int (length ds) > 0)\<rparr>\<rparr>)"
  by (auto simp: detect_defects_def bind_err_eq_Inr ndarray_copy_def alloc_def Let_def)

lemmas sample_defs = sample_cv2_def sample_contours_def sample_area_def sample_rect_def
  sample_length_def sample_thin_def sample_noise_def sample_ell_def sample_edge_def
  sample_hook_def sample_heap_def sample_defects_def sample_result_def sample_heap_after_def
  clean_cv2_def clean_result_def clean_heap_after_def

lemmas run_defs = detect_defects_def extract_contours_def contour_step_def draw_defect_def Let_def
  classify_defect_def get_defect_color_def colors_def dict_get_def py_truediv_def
  update_cell_def ndarray_copy_def alloc_def count_types_def py_sum_def
  DefectDetector_default_def DefectDetector_init_def sup2_def

lemmas fmt_defs = format_fixed_def round_half_even_def zero_pad_def Let_def

lemmas digit_defs = str_nat.simps digit_char_def

lemma sample_run:
  "detect_defects sample_cv2 DefectDetector_default 0 sample_heap
     = Inr (sample_result, sample_heap_after)"
  using pi_ge_two pi_less_4
  apply (simp add: sample_defs run_defs)
  apply (simp add: fmt_defs)
  apply (simp add: digit_defs)
  done

lemma clean_run:
  "detect_defects clean_cv2 DefectDetector_default 0 sample_heap
     = Inr (clean_result, clean_heap_after)"
  by (simp add: sample_defs run_defs)


lemma degenerate_run:
  "detect_defects degenerate_cv2 (update_min_defect_size 0 DefectDetector_default) 0 sample_heap
     = Inr (degenerate_result, degenerate_heap_after)"
  apply (simp add: sample_defs run_defs degenerate_cv2_def degenerate_result_def
      degenerate_heap_after_def update_min_defect_size_def)
  apply (simp add: fmt_defs)
  apply (simp add: digit_defs)
  done

lemma map_of_dict_set: "map_of (dict_set d k v) = (map_of d)(k \<mapsto> v)"
  by (induction d k v rule: dict_set.induct) (auto simp: fun_eq_iff)

lemma keys_dict_set:
  "map fst (dict_set d k v) = (if k \<in> fst ` set d then map fst d else map fst d @ [k])"
  by (induction d k v rule: dict_set.induct) auto

lemma sum_dict_bump:
  "sum_list (map snd (dict_set d k (dict_get d k 0 + 1))) = sum_list (map snd d) + (1::int)"
  by (induction d) (auto simp: dict_get_def)

lemma count_types_snoc:
  "count_types (ds @ [x]) =
     dict_set (count_types ds) (type x) (dict_get (count_types ds) (type x) 0 + 1)"
  by (simp add: count_types_def Let_def)

lemma first_seen_snoc:
  "rev (remdups (rev (xs @ [x]))) =
     (if x \<in> set xs then rev (remdups (rev xs)) else rev (remdups (rev xs)) @ [x])"
  by simp

lemma count_types_spec:
  "map fst (count_types ds) = rev (remdups (rev (map type ds)))
   \<and> (\<forall>k. map_of (count_types ds) k =
          (if k \<in> type ` set ds then Some (int (length (filter (\<lambda>d. type d = k) ds)))
           else None))
   \<and> sum_list (map snd (count_types ds)) = int (length ds)"
proof (induction ds rule: rev_induct)
  case Nil
  show ?case by (simp add: count_types_def)
next
  case (snoc x ds)
  let ?dt = "count_types ds"
  from snoc have keys: "map fst ?dt = rev (remdups (rev (map type ds)))"
    and vals: "\<And>k. map_of ?dt k =
          (if k \<in> type ` set ds then Some (int (length (filter (\<lambda>d. type d = k) ds)))
           else None)"
    and total: "sum_list (map snd ?dt) = int (length ds)"
    by blast+
  have dom: "fst ` set ?dt = type ` set ds"
  proof -
    have "fst ` set ?dt = set (map fst ?dt)" by simp
    also have "\<dots> = type ` set ds" unfolding keys by simp
    finally show ?thesis .
  qed
  have get: "dict_get ?dt (type x) 0 = int (length (filter (\<lambda>d. type d = type x) ds))"
  proof (cases "type x \<in> type ` set ds")
    case True
    then show ?thesis by (simp add: dict_get_def vals)
  next
    case False
    then have "filter (\<lambda>d. type d = type x) ds = []"
      unfolding filter_empty_conv by (metis imageI)
    with False show ?thesis by (simp add: dict_get_def vals)
  qed
  have "map fst (count_types (ds @ [x])) = rev (remdups (rev (map type (ds @ [x]))))"
    unfolding count_types_snoc keys_dict_set dom using keys by simp
  moreover have "\<forall>k. map_of (count_types (ds @ [x])) k =
          (if k \<in> type ` set (ds @ [x])
           then Some (int (length (filter (\<lambda>d. type d = k) (ds @ [x])))) else None)"
    unfolding count_types_snoc map_of_dict_set get by (auto simp: vals)
  moreover have "sum_list (map snd (count_types (ds @ [x]))) = int (length (ds @ [x]))"
    unfolding count_types_snoc sum_dict_bump total by simp
  ultimately show ?case by blast
qed

subsection \<open>Rendering and the report writer\<close>

lemma digit_cases:
  assumes "d < (10::nat)"
  obtains "d = 0" | "d = 1" | "d = 2" | "d = 3" | "d = 4"
    | "d = 5" | "d = 6" | "d = 7" | "d = 8" | "d = 9"
proof -
  from assms have "d = 0 \<or> d = 1 \<or> d = 2 \<or> d = 3 \<or> d = 4
      \<or> d = 5 \<or> d = 6 \<or> d = 7 \<or> d = 8 \<or> d = 9"
    by arith
  with that show thesis by blast
qed

lemma is_digit_digit_char: "d < 10 \<Longrightarrow> is_digit (digit_char d)"
  by (erule digit_cases) (simp_all add: is_digit_def digit_char_def)

lemma digit_val_digit_char: "d < 10 \<Longrightarrow> digit_val (digit_char d) = d"
  by (erule digit_cases) (simp_all add: digit_val_def is_digit_def digit_char_def)

lemma digit_char_not_minus: "d < 10 \<Longrightarrow> digit_char d \<noteq> CHR ''-''"
  by (erule digit_cases) (simp_all add: digit_char_def)

lemma digits_val_snoc: "digits_val (s @ [ch]) = 10 * digits_val s + digit_val ch"
  by (simp add: digits_val_def)

lemma str_nat_props:
  "str_nat n \<noteq> [] \<and> list_all is_digit (str_nat n) \<and> digits_val (str_nat n) = n
   \<and> hd (str_nat n) \<noteq> CHR ''-''"
proof (induction n rule: str_nat.induct)
  case (1 n)
  show ?case
  proof (cases "n < 10")
    case True
    then show ?thesis
      by (simp add: str_nat.simps [of n] is_digit_digit_char digit_val_digit_char
          digit_char_not_minus digits_val_def)
  next
    case False
    with 1 have ih: "str_nat (n div 10) \<noteq> []" "list_all is_digit (str_nat (n div 10))"
      "digits_val (str_nat (n div 10)) = n div 10" "hd (str_nat (n div 10)) \<noteq> CHR ''-''"
      by simp_all
    have m: "n mod 10 < 10" by simp
    from False have eq: "str_nat n = str_nat (n div 10) @ [digit_char (n mod 10)]"
      by (simp add: str_nat.simps [of n])
    show ?thesis
      unfolding eq using ih m
      by (simp add: digits_val_snoc is_digit_digit_char digit_val_digit_char)
  qed
qed

lemma length_str_nat: "0 < p \<Longrightarrow> n < 10 ^ p \<Longrightarrow> length (str_nat n) \<le> p"
proof (induction n arbitrary: p rule: str_nat.induct)
  case (1 n)
  show ?case
  proof (cases "n < 10")
    case True
    with 1(2) show ?thesis by (simp add: str_nat.simps [of n])
  next
    case False
    from False have eq: "str_nat n = str_nat (n div 10) @ [digit_char (n mod 10)]"
      by (simp add: str_nat.simps [of n])
    obtain q where p: "p = Suc q" using 1(2) by (cases p) auto
    from False 1(3) have "q > 0" unfolding p by (cases q) auto
    moreover from 1(3) have "n div 10 < 10 ^ q" unfolding p
      by (simp add: less_mult_imp_div_less mult.commute)
    ultimately have "length (str_nat (n div 10)) \<le> q"
      using 1(1) [OF False] by blast
    then show ?thesis unfolding eq p by simp
  qed
qed

lemma is_digit_zero: "is_digit (CHR ''0'')"
  by (simp add: is_digit_def)

lemma digit_val_zero: "digit_val (CHR ''0'') = 0"
  by (simp add: digit_val_def is_digit_def)

lemma digits_val_replicate_zero:
  "digits_val (replicate k (CHR ''0'') @ s) = digits_val s"
proof -
  have "foldl (\<lambda>a ch. 10 * a + digit_val ch) 0 (replicate k (CHR ''0'')) = 0"
    by (induction k) (simp_all add: digit_val_zero)
  then show ?thesis by (simp add: digits_val_def)
qed

lemma zero_pad_props:
  assumes "length s \<le> p" and "list_all is_digit s"
  shows "length (zero_pad p s) = p \<and> list_all is_digit (zero_pad p s)
       \<and> digits_val (zero_pad p s) = digits_val s"
  using assms
  by (auto simp: zero_pad_def digits_val_replicate_zero list_all_iff is_digit_zero)

lemma round_half_even_bound: "\<bar>real_of_int (round_half_even y) - y\<bar> \<le> 1 / 2"
  unfolding round_half_even_def Let_def by (auto; linarith)

lemma round_half_even_nonneg: "0 \<le> y \<Longrightarrow> 0 \<le> round_half_even y"
  unfolding round_half_even_def Let_def by (auto; linarith)


lemma fixed_body:
  assumes "length fs = p" and "ds \<noteq> []" and "hd ds \<noteq> CHR ''-''"
    and "list_all is_digit ds" and "list_all is_digit fs"
  shows "fixed_text p (ds @ ''.'' @ fs)" and "fixed_text p (''-'' @ ds @ ''.'' @ fs)"
    and "fixed_value p (ds @ ''.'' @ fs) = real (digits_val ds) + real (digits_val fs) / 10 ^ p"
    and "fixed_value p (''-'' @ ds @ ''.'' @ fs)
           = - (real (digits_val ds) + real (digits_val fs) / 10 ^ p)"
proof -
  let ?body = "ds @ ''.'' @ fs"
  have len: "length ?body - Suc p = length ds" using assms(1) by simp
  have hd_body: "hd ?body \<noteq> CHR ''-''" "?body \<noteq> []" using assms(2,3) by simp_all
  have parts: "take (length ds) ?body = ds" "drop (length ds) ?body = ''.'' @ fs"
    "drop (Suc (length ds)) ?body = fs"
    by simp_all
  have lt: "p < length ?body" using assms(1) by simp
  show "fixed_text p ?body"
    unfolding fixed_text_def Let_def using hd_body assms(2,4,5) lt
    by (simp only: if_False len parts simp_thms) simp
  show "fixed_value p ?body = real (digits_val ds) + real (digits_val fs) / 10 ^ p"
    unfolding fixed_value_def Let_def using hd_body
    by (simp only: if_False len parts simp_thms)
  have neg: "''-'' @ ?body \<noteq> []" "hd (''-'' @ ?body) = CHR ''-''" "tl (''-'' @ ?body) = ?body"
    by simp_all
  show "fixed_text p (''-'' @ ?body)"
    unfolding fixed_text_def Let_def using assms(2,4,5) lt
    by (simp only: neg if_True len parts simp_thms) simp
  show "fixed_value p (''-'' @ ?body) = - (real (digits_val ds) + real (digits_val fs) / 10 ^ p)"
    unfolding fixed_value_def Let_def
    by (simp only: neg if_True len parts simp_thms)
qed

lemma format_fixed_spec:
  assumes "0 < p"
  shows "fixed_text p (format_fixed p x)
       \<and> \<bar>fixed_value p (format_fixed p x) - x\<bar> \<le> 1 / (2 * 10 ^ p)"
proof -
  define n where "n = nat (round_half_even (\<bar>x\<bar> * 10 ^ p))"
  define ds where "ds = str_nat (n div 10 ^ p)"
  define fs where "fs = zero_pad p (str_nat (n mod 10 ^ p))"
  have fmt: "format_fixed p x = (if x < 0 then ''-'' else []) @ ds @ ''.'' @ fs"
    using assms by (simp add: format_fixed_def Let_def n_def ds_def fs_def)
  have ds: "ds \<noteq> []" "list_all is_digit ds" "digits_val ds = n div 10 ^ p" "hd ds \<noteq> CHR ''-''"
    unfolding ds_def using str_nat_props [of "n div 10 ^ p"] by simp_all
  have "length (str_nat (n mod 10 ^ p)) \<le> p"
    using assms by (intro length_str_nat) simp_all
  from zero_pad_props [OF this] str_nat_props [of "n mod 10 ^ p"]
  have fs: "length fs = p" "list_all is_digit fs" "digits_val fs = n mod 10 ^ p"
    unfolding fs_def by simp_all
  note body = fixed_body [OF fs(1) ds(1) ds(4) ds(2) fs(2)]
  have "n div 10 ^ p * 10 ^ p + n mod 10 ^ p = n"
    by (rule div_mult_mod_eq)
  then have "real (n div 10 ^ p * 10 ^ p + n mod 10 ^ p) = real n"
    by (simp only:)
  then have "real (n div 10 ^ p) * 10 ^ p + real (n mod 10 ^ p) = real n"
    by simp
  then have val: "real (digits_val ds) + real (digits_val fs) / 10 ^ p = real n / 10 ^ p"
    unfolding ds(3) fs(3) by (simp add: field_simps)
  have "0 \<le> round_half_even (\<bar>x\<bar> * 10 ^ p)"
    by (intro round_half_even_nonneg) simp
  then have "real n = real_of_int (round_half_even (\<bar>x\<bar> * 10 ^ p))"
    unfolding n_def by simp
  with round_half_even_bound [of "\<bar>x\<bar> * 10 ^ p"]
  have "\<bar>real n - \<bar>x\<bar> * 10 ^ p\<bar> \<le> 1 / 2" by simp
  then have "\<bar>real n - \<bar>x\<bar> * 10 ^ p\<bar> / 10 ^ p \<le> (1 / 2) / 10 ^ p"
    by (intro divide_right_mono) simp_all
  moreover have "\<bar>real n - \<bar>x\<bar> * 10 ^ p\<bar> / 10 ^ p = \<bar>real n / 10 ^ p - \<bar>x\<bar>\<bar>"
  proof -
    have "\<bar>real n - \<bar>x\<bar> * 10 ^ p\<bar> / 10 ^ p = \<bar>(real n - \<bar>x\<bar> * 10 ^ p) / 10 ^ p\<bar>"
      by simp
    also have "(real n - \<bar>x\<bar> * 10 ^ p) / 10 ^ p = real n / 10 ^ p - \<bar>x\<bar>"
      by (simp add: diff_divide_distrib)
    finally show ?thesis .
  qed
  ultimately have close: "\<bar>real n / 10 ^ p - \<bar>x\<bar>\<bar> \<le> 1 / (2 * 10 ^ p)"
    by simp
  show ?thesis
  proof (cases "x < 0")
    case True
    then have s: "format_fixed p x = ''-'' @ ds @ ''.'' @ fs" using fmt by simp
    have "fixed_value p (format_fixed p x) - x = - (real n / 10 ^ p - \<bar>x\<bar>)"
      unfolding s body(4) val using True by simp
    with close have "\<bar>fixed_value p (format_fixed p x) - x\<bar> \<le> 1 / (2 * 10 ^ p)"
      by simp
    with body(2) show ?thesis unfolding s by simp
  next
    case False
    then have s: "format_fixed p x = ds @ ''.'' @ fs" using fmt by simp
    have "fixed_value p (format_fixed p x) - x = real n / 10 ^ p - \<bar>x\<bar>"
      unfolding s body(3) val using False by simp
    with close have "\<bar>fixed_value p (format_fixed p x) - x\<bar> \<le> 1 / (2 * 10 ^ p)"
      by simp
    with body(1) show ?thesis unfolding s by simp
  qed
qed


lemma write_breakdown_eq:
  "write_breakdown items f = f @ map (\<lambda>(defect_type, cnt). [S defect_type, I cnt]) items"
  by (induction items f rule: write_breakdown.induct) (simp_all add: writerow_def)

lemma write_defect_rows_eq:
  "write_defect_rows i ds f =
     f @ map (\<lambda>k. [I (i + int k),
                    S (type (ds ! k)),
                    S (format_fixed 2 (area_mm (ds ! k))),
                    S (format_fixed 2 (area_pixels (ds ! k))),
                    I (fst (bbox (ds ! k))),
                    I (fst (snd (bbox (ds ! k)))),
                    I (fst (snd (snd (bbox (ds ! k))))),
                    I (snd (snd (snd (bbox (ds ! k))))),
                    S (format_fixed 2 (aspect_ratio (ds ! k))),
                    S (format_fixed 2 (circularity (ds ! k)))]) [0..<length ds]"
proof (induction ds arbitrary: i f)
  case Nil
  show ?case by simp
next
  case (Cons d ds)
  obtain x y w h where bb: "bbox d = (x, y, w, h)"
    by (cases "bbox d") auto
  have upt: "[0..<length (d # ds)] = 0 # map Suc [0..<length ds]"
    by (simp add: upt_conv_Cons map_Suc_upt del: upt_Suc)
  show ?case
    unfolding upt
    by (simp add: bb Cons.IH writerow_def comp_def add.assoc del: upt_Suc)
qed


lemma generate_report_eq:
  "generate_report generated image_name res =
     [[S ''Industrial Defect Detection Report''],
      [S ''Generated:'', S generated],
      [S ''Image:'', S image_name],
      [],
      [S ''Summary''],
      [S ''Total Defects:'', I (total_defects (statistics res))],
      [S (''Total Defect Area (mm'' @ sup2 @ ''):''),
       S (format_fixed 2 (total_area_mm (statistics res)))],
      [S ''Status:'', S (if pass (statistics res) then ''PASS'' else ''FAIL'')],
      [],
      [S ''Defect Types Breakdown'']]
     @ map (\<lambda>(defect_type, cnt). [S defect_type, I cnt]) (defect_types (statistics res))
     @ [[],
        [S ''Detailed Defect List''],
        [S ''ID'', S ''Type'', S (''Area (mm'' @ sup2 @ '')''), S ''Area (pixels)'',
         S ''X'', S ''Y'', S ''Width'', S ''Height'', S ''Aspect Ratio'', S ''Circularity'']]
     @ write_defect_rows 1 (defects res) []"
  unfolding generate_report_def Let_def write_breakdown_eq writerow_def
  by (simp add: write_defect_rows_eq [of _ _ "_ # _"] write_defect_rows_eq [of _ _ "[]"])

section \<open>Properties\<close>

subsection \<open>The classifier\<close>

text \<open>
  Claim C1. The classifier evaluates its six rules in the fixed order
  (1) aspect ratio above 3.0 or below 0.33 gives Crack, (2) circularity above 0.7 gives
  Hole, (3) circularity below 0.3 gives Irregular Shape, (4) an area strictly between
  10 and 50 gives Misalignment, (5) an area above 50 gives Large Defect, (6) otherwise
  Small Defect, and the first rule that matches wins. In particular a region that
  satisfies both rule 1 and rule 2, such as aspect ratio 5.0 with circularity 0.9, is a
  Crack and never a Hole.
\<close>

theorem classify_defect_rule_order:
  fixes a r c :: real
  shows "((r > 3.0 \<or> r < 0.33) \<longrightarrow> classify_defect a r c = ''Crack'')
       \<and> (\<not> (r > 3.0 \<or> r < 0.33) \<and> c > 0.7 \<longrightarrow> classify_defect a r c = ''Hole'')
       \<and> (\<not> (r > 3.0 \<or> r < 0.33) \<and> \<not> c > 0.7 \<and> c < 0.3
            \<longrightarrow> classify_defect a r c = ''Irregular Shape'')
       \<and> (\<not> (r > 3.0 \<or> r < 0.33) \<and> \<not> c > 0.7 \<and> \<not> c < 0.3 \<and> 10 < a \<and> a < 50
            \<longrightarrow> classify_defect a r c = ''Misalignment'')
       \<and> (\<not> (r > 3.0 \<or> r < 0.33) \<and> \<not> c > 0.7 \<and> \<not> c < 0.3 \<and> \<not> (10 < a \<and> a < 50) \<and> a > 50
            \<longrightarrow> classify_defect a r c = ''Large Defect'')
       \<and> (\<not> (r > 3.0 \<or> r < 0.33) \<and> \<not> c > 0.7 \<and> \<not> c < 0.3 \<and> \<not> (10 < a \<and> a < 50) \<and> \<not> a > 50
            \<longrightarrow> classify_defect a r c = ''Small Defect'')
       \<and> ((r > 3.0 \<or> r < 0.33) \<and> c > 0.7 \<longrightarrow>
            classify_defect a r c = ''Crack'' \<and> classify_defect a r c \<noteq> ''Hole'')"
  unfolding classify_defect_def by simp

theorem classify_defect_rule_order_witness:
  "classify_defect 20 5.0 0.9 = ''Crack'' \<and> classify_defect 20 5.0 0.9 \<noteq> ''Hole''
   \<and> classify_defect 20 1 0.9 = ''Hole''
   \<and> classify_defect 20 1 0.1 = ''Irregular Shape''
   \<and> classify_defect 30 1 0.5 = ''Misalignment''
   \<and> classify_defect 60 1 0.5 = ''Large Defect''
   \<and> classify_defect 7 1 0.5 = ''Small Defect''"
  using classify_defect_rule_order [where a = 20 and r = "5.0" and c = "0.9"]
    classify_defect_rule_order [where a = 20 and r = 1 and c = "0.9"]
    classify_defect_rule_order [where a = 20 and r = 1 and c = "0.1"]
    classify_defect_rule_order [where a = 30 and r = 1 and c = "0.5"]
    classify_defect_rule_order [where a = 60 and r = 1 and c = "0.5"]
    classify_defect_rule_order [where a = 7 and r = 1 and c = "0.5"]
  by simp

text \<open>
  Claim C10. For a region that fails rules 1 to 3 (aspect ratio within 0.33 and 3.0,
  circularity within 0.3 and 0.7, bounds included), an area of exactly 50 or exactly 10
  is a Small Defect: the Misalignment range and the Large Defect condition are strict.
\<close>

theorem classify_defect_boundary_small:
  fixes area_val r c :: real
  assumes "0.33 \<le> r" and "r \<le> 3.0" and "0.3 \<le> c" and "c \<le> 0.7"
    and "area_val = 50 \<or> area_val = 10"
  shows "classify_defect area_val r c = ''Small Defect''"
  using assms unfolding classify_defect_def by auto

theorem classify_defect_boundary_small_witness:
  "classify_defect 50 1 0.5 = ''Small Defect'' \<and> classify_defect 10 0.33 0.7 = ''Small Defect''"
  using classify_defect_boundary_small [where area_val = 50 and r = 1 and c = "0.5"]
    classify_defect_boundary_small [where area_val = 10 and r = "0.33" and c = "0.7"]
  by simp

subsection \<open>The detector\<close>

text \<open>
  Claim C2. Every defect returned by \<open>detect_defects\<close> has an \<open>area_mm\<close>, equal to
  its \<open>area_pixels\<close> times 0.1, that is at least \<open>min_defect_size\<close>. The test that
  discards a region is a strict less-than: the defects are, in order, exactly the
  extracted contours whose area in mm is not below the threshold, so a region exactly at
  the threshold is kept, and a region below it is neither classified nor counted nor
  annotated: each returned defect carries the type the classifier gives it, the count is
  the number of contours kept, and the store after the call is the copy of the input
  with the drawing calls of the returned defects, in order, and nothing else.
\<close>

theorem detect_defects_min_size:
  assumes "detect_defects cv self image_ref hp = Inr (res, hp')"
  shows "(\<forall>d \<in> set (defects res).
            area_pixels d = contourArea cv (contour d)
          \<and> area_mm d = area_pixels d * 0.1 \<and> min_defect_size self \<le> area_mm d)
       \<and> (\<exists>contours. extract_contours cv self (cells hp image_ref) = Inr contours
            \<and> map contour (defects res)
                = filter (\<lambda>c. min_defect_size self \<le> contourArea cv c * 0.1) contours
            \<and> (\<forall>c \<in> set contours. contourArea cv c * 0.1 = min_defect_size self
                  \<longrightarrow> c \<in> contour ` set (defects res))
            \<and> (\<forall>c \<in> set contours. contourArea cv c * 0.1 < min_defect_size self
                  \<longrightarrow> c \<notin> contour ` set (defects res))
            \<and> total_defects (statistics res)
                = int (length (filter (\<lambda>c. min_defect_size self \<le> contourArea cv c * 0.1)
                                 contours)))
       \<and> (\<forall>d \<in> set (defects res).
            type d = classify_defect (area_mm d) (aspect_ratio d) (circularity d))
       \<and> hp' = foldl (\<lambda>h d. draw_defect cv (annotated_image res)
                                (contour d) (bbox d) (type d) (area_mm d) h)
                  (snd (ndarray_copy image_ref hp)) (defects res)"
proof -
  let ?keep = "\<lambda>c. min_defect_size self \<le> contourArea cv c * 0.1"
  from assms obtain contours ds where
    ex: "extract_contours cv self (cells hp image_ref) = Inr contours"
    and loop: "for_contours cv self (next_ref hp) contours
                 ([], snd (ndarray_copy image_ref hp)) = Inr (ds, hp')"
    and res: "defects res = ds" "total_defects (statistics res) = int (length ds)"
      "annotated_image res = next_ref hp"
    by (auto simp: detect_defects_Inr_iff)
  from for_contours_spec [OF loop] have
    cont: "map contour ds = filter ?keep contours"
    and drawn: "hp' = foldl (\<lambda>h d. draw_defect cv (next_ref hp)
                                (contour d) (bbox d) (type d) (area_mm d) h)
                  (snd (ndarray_copy image_ref hp)) ds"
    and ok: "\<forall>d \<in> set ds. area_pixels d = contourArea cv (contour d)
                \<and> area_mm d = contourArea cv (contour d) * 0.1"
    and cls: "\<forall>d \<in> set ds.
                type d = classify_defect (area_mm d) (aspect_ratio d) (circularity d)"
    by auto
  have mem: "contour ` set ds = {c \<in> set contours. ?keep c}"
  proof -
    have "contour ` set ds = set (map contour ds)" by simp
    also have "\<dots> = {c \<in> set contours. ?keep c}" unfolding cont by simp
    finally show ?thesis .
  qed
  have ge: "\<forall>d \<in> set ds. min_defect_size self \<le> area_mm d"
  proof
    fix d assume d: "d \<in> set ds"
    then have "contour d \<in> {c \<in> set contours. ?keep c}" using mem by blast
    then have "min_defect_size self \<le> contourArea cv (contour d) * 0.1" by blast
    moreover from ok d have "area_mm d = contourArea cv (contour d) * 0.1" by blast
    ultimately show "min_defect_size self \<le> area_mm d" by (simp only:)
  qed
  have conv: "\<forall>d \<in> set ds. area_mm d = area_pixels d * 0.1"
  proof
    fix d assume d: "d \<in> set ds"
    with ok have "area_pixels d = contourArea cv (contour d)"
      "area_mm d = contourArea cv (contour d) * 0.1" by blast+
    then show "area_mm d = area_pixels d * 0.1" by (simp only:)
  qed
  have len: "int (length ds) = int (length (filter ?keep contours))"
    using arg_cong [OF cont, of length] by simp
  have at: "\<forall>c \<in> set contours. contourArea cv c * 0.1 = min_defect_size self
              \<longrightarrow> c \<in> contour ` set ds"
    unfolding mem by simp
  have below: "\<forall>c \<in> set contours. contourArea cv c * 0.1 < min_defect_size self
              \<longrightarrow> c \<notin> contour ` set ds"
    unfolding mem by simp
  from ge conv ok have first: "\<forall>d \<in> set ds.
      area_pixels d = contourArea cv (contour d)
      \<and> area_mm d = area_pixels d * 0.1 \<and> min_defect_size self \<le> area_mm d"
    by blast
  show ?thesis
    unfolding res
    by (intro conjI first exI [of _ contours] ex cont at below len cls drawn)
qed

theorem detect_defects_min_size_witness:
  "detect_defects sample_cv2 DefectDetector_default 0 sample_heap
     = Inr (sample_result, sample_heap_after)
   \<and> min_defect_size DefectDetector_default = 5
   \<and> map area_mm (defects sample_result) = [12, 40, 5, 9.6]
   \<and> map contour (defects sample_result) = [sample_thin, sample_ell, sample_edge, sample_hook]
   \<and> contourArea sample_cv2 sample_edge * 0.1 = 5
   \<and> sample_edge \<in> contour ` set (defects sample_result)
   \<and> contourArea sample_cv2 sample_noise * 0.1 < 5
   \<and> sample_noise \<notin> contour ` set (defects sample_result)
   \<and> sample_heap_after
       = foldl (\<lambda>h d. draw_defect sample_cv2 (annotated_image sample_result)
                         (contour d) (bbox d) (type d) (area_mm d) h)
           (snd (ndarray_copy 0 sample_heap)) (defects sample_result)
   \<and> length (cells sample_heap_after 1) = 3 * length (defects sample_result)"
proof -
  note t = detect_defects_min_size [OF sample_run]
  from t have drawn: "sample_heap_after
       = foldl (\<lambda>h d. draw_defect sample_cv2 (annotated_image sample_result)
                         (contour d) (bbox d) (type d) (area_mm d) h)
           (snd (ndarray_copy 0 sample_heap)) (defects sample_result)"
    by blast
  have rest: "min_defect_size DefectDetector_default = 5
   \<and> map area_mm (defects sample_result) = [12, 40, 5, 9.6]
   \<and> map contour (defects sample_result) = [sample_thin, sample_ell, sample_edge, sample_hook]
   \<and> contourArea sample_cv2 sample_edge * 0.1 = 5
   \<and> sample_edge \<in> contour ` set (defects sample_result)
   \<and> contourArea sample_cv2 sample_noise * 0.1 < 5
   \<and> sample_noise \<notin> contour ` set (defects sample_result)
   \<and> length (cells sample_heap_after 1) = 3 * length (defects sample_result)"
    by (simp add: sample_defs DefectDetector_default_def DefectDetector_init_def)
  from sample_run drawn rest show ?thesis by blast
qed

text \<open>
  Claim C4. In every result of \<open>detect_defects\<close>, \<open>pass\<close> is \<open>total_defects = 0\<close> and
  \<open>fail\<close> is \<open>total_defects > 0\<close>; the two are complementary.
\<close>

theorem detect_defects_pass_fail:
  assumes "detect_defects cv self image_ref hp = Inr (res, hp')"
  shows "pass (statistics res) = (total_defects (statistics res) = 0)
       \<and> fail (statistics res) = (total_defects (statistics res) > 0)
       \<and> pass (statistics res) = (\<not> fail (statistics res))
       \<and> total_defects (statistics res) = int (length (defects res))"
  using assms by (auto simp: detect_defects_Inr_iff)

theorem detect_defects_pass_fail_witness:
  "detect_defects sample_cv2 DefectDetector_default 0 sample_heap
     = Inr (sample_result, sample_heap_after)
   \<and> total_defects (statistics sample_result) = 4
   \<and> \<not> pass (statistics sample_result) \<and> fail (statistics sample_result)
   \<and> detect_defects clean_cv2 DefectDetector_default 0 sample_heap
     = Inr (clean_result, clean_heap_after)
   \<and> total_defects (statistics clean_result) = 0
   \<and> pass (statistics clean_result) \<and> \<not> fail (statistics clean_result)"
  using detect_defects_pass_fail [OF sample_run] detect_defects_pass_fail [OF clean_run]
    sample_run clean_run
  by (simp add: sample_result_def clean_result_def)

text \<open>
  Claim C5. In every result of \<open>detect_defects\<close>, \<open>total_area_mm\<close> is the sum of
  \<open>area_mm\<close> over the returned defects.
\<close>

theorem detect_defects_total_area:
  assumes "detect_defects cv self image_ref hp = Inr (res, hp')"
  shows "total_area_mm (statistics res) = (\<Sum>d\<leftarrow>defects res. area_mm d)"
  using assms by (auto simp: detect_defects_Inr_iff py_sum_sum_list)

theorem detect_defects_total_area_witness:
  "detect_defects sample_cv2 DefectDetector_default 0 sample_heap
     = Inr (sample_result, sample_heap_after)
   \<and> total_area_mm (statistics sample_result) = 12 + 40 + 5 + 9.6"
  using detect_defects_total_area [OF sample_run] sample_run
  by (simp add: sample_result_def sample_defects_def)

text \<open>
  Claim C7. Degenerate geometry is absorbed by fallback values and never raises. The
  loop over the contours returns for every list of contours and every measurement, so
  the detector returns a result whenever the extraction pipeline does; that result
  records every extracted contour that passes the size filter, in order, and for each
  of them the aspect ratio is width / height when the height of the bounding box is
  positive and 0 when it is 0, and the circularity is 4 pi area / perimeter squared,
  with the area OpenCV measures, when the perimeter is positive and 0 when it is 0.
\<close>

theorem degenerate_geometry_fallback:
  "(\<exists>st'. for_contours cv self ann cs st = Inr st')
   \<and> (extract_contours cv self (cells hp image_ref) = Inr cs \<longrightarrow>
        (\<exists>res hp'. detect_defects cv self image_ref hp = Inr (res, hp')
           \<and> map contour (defects res)
               = filter (\<lambda>c. min_defect_size self \<le> contourArea cv c * 0.1) cs
           \<and> (\<forall>d \<in> set (defects res).
                 area_pixels d = contourArea cv (contour d)
               \<and> (case boundingRect cv (contour d) of (x, y, w, h) \<Rightarrow>
                    (h > 0 \<longrightarrow> aspect_ratio d = real_of_int w / real_of_int h)
                  \<and> (h = 0 \<longrightarrow> aspect_ratio d = 0))
               \<and> (let perimeter = arcLength cv (contour d) True
                  in (perimeter > 0 \<longrightarrow>
                        circularity d = 4 * pi * area_pixels d / perimeter\<^sup>2)
                   \<and> (perimeter = 0 \<longrightarrow> circularity d = 0)))))"
proof (intro conjI impI)
  show "\<exists>st'. for_contours cv self ann cs st = Inr st'"
    by (rule for_contours_total)
next
  assume ex: "extract_contours cv self (cells hp image_ref) = Inr cs"
  from for_contours_total [of cv self "next_ref hp" cs "([], snd (ndarray_copy image_ref hp))"]
  obtain ds hp' where loop: "for_contours cv self (next_ref hp) cs
      ([], snd (ndarray_copy image_ref hp)) = Inr (ds, hp')"
    by (metis surj_pair)
  define res where "res = \<lparr>defects = ds, annotated_image = next_ref hp,
             statistics = \<lparr>total_defects = int (length ds),
                           total_area_mm = py_sum (map area_mm ds),
                           defect_types = count_types ds,
                           pass = (int (length ds) = 0),
                           fail = (int (length ds) > 0)\<rparr>\<rparr>"
  have dres: "defects res = ds" by (simp add: res_def)
  have run: "detect_defects cv self image_ref hp = Inr (res, hp')"
    unfolding detect_defects_Inr_iff res_def using ex loop by blast
  have kept: "map contour (defects res)
               = filter (\<lambda>c. min_defect_size self \<le> contourArea cv c * 0.1) cs"
    unfolding dres using for_contours_spec [OF loop] by auto
  have feat: "\<forall>d \<in> set (defects res).
                 area_pixels d = contourArea cv (contour d)
               \<and> (case boundingRect cv (contour d) of (x, y, w, h) \<Rightarrow>
                    (h > 0 \<longrightarrow> aspect_ratio d = real_of_int w / real_of_int h)
                  \<and> (h = 0 \<longrightarrow> aspect_ratio d = 0))
               \<and> (let perimeter = arcLength cv (contour d) True
                  in (perimeter > 0 \<longrightarrow>
                        circularity d = 4 * pi * area_pixels d / perimeter\<^sup>2)
                   \<and> (perimeter = 0 \<longrightarrow> circularity d = 0))"
    unfolding dres
  proof
    fix d assume d: "d \<in> set ds"
    from for_contours_spec [OF loop] d have
      ap: "area_pixels d = contourArea cv (contour d)"
      and bb: "bbox d = boundingRect cv (contour d)"
      and ar: "aspect_ratio d =
             (if snd (snd (snd (bbox d))) > 0
              then real_of_int (fst (snd (snd (bbox d)))) / real_of_int (snd (snd (snd (bbox d))))
              else 0)"
      and ci: "circularity d =
             (if arcLength cv (contour d) True > 0
              then 4 * pi * contourArea cv (contour d)
                   / (arcLength cv (contour d) True * arcLength cv (contour d) True)
              else 0)"
      by auto
    obtain x y w h where br: "boundingRect cv (contour d) = (x, y, w, h)"
      by (cases "boundingRect cv (contour d)") auto
    have one: "(case boundingRect cv (contour d) of (x, y, w, h) \<Rightarrow>
                    (h > 0 \<longrightarrow> aspect_ratio d = real_of_int w / real_of_int h)
                  \<and> (h = 0 \<longrightarrow> aspect_ratio d = 0))"
      using ar unfolding bb br by simp
    have "(let perimeter = arcLength cv (contour d) True
                  in (perimeter > 0 \<longrightarrow>
                        circularity d = 4 * pi * contourArea cv (contour d) / perimeter\<^sup>2)
                   \<and> (perimeter = 0 \<longrightarrow> circularity d = 0))"
      using ci by (simp add: Let_def power2_eq_square)
    then have two: "(let perimeter = arcLength cv (contour d) True
                  in (perimeter > 0 \<longrightarrow>
                        circularity d = 4 * pi * area_pixels d / perimeter\<^sup>2)
                   \<and> (perimeter = 0 \<longrightarrow> circularity d = 0))"
      by (simp only: ap)
    from ap one two show "area_pixels d = contourArea cv (contour d)
               \<and> (case boundingRect cv (contour d) of (x, y, w, h) \<Rightarrow>
                    (h > 0 \<longrightarrow> aspect_ratio d = real_of_int w / real_of_int h)
                  \<and> (h = 0 \<longrightarrow> aspect_ratio d = 0))
               \<and> (let perimeter = arcLength cv (contour d) True
                  in (perimeter > 0 \<longrightarrow>
                        circularity d = 4 * pi * area_pixels d / perimeter\<^sup>2)
                   \<and> (perimeter = 0 \<longrightarrow> circularity d = 0))"
      by blast
  qed
  from run kept feat
  show "\<exists>res hp'. detect_defects cv self image_ref hp = Inr (res, hp')
           \<and> map contour (defects res)
               = filter (\<lambda>c. min_defect_size self \<le> contourArea cv c * 0.1) cs
           \<and> (\<forall>d \<in> set (defects res).
                 area_pixels d = contourArea cv (contour d)
               \<and> (case boundingRect cv (contour d) of (x, y, w, h) \<Rightarrow>
                    (h > 0 \<longrightarrow> aspect_ratio d = real_of_int w / real_of_int h)
                  \<and> (h = 0 \<longrightarrow> aspect_ratio d = 0))
               \<and> (let perimeter = arcLength cv (contour d) True
                  in (perimeter > 0 \<longrightarrow>
                        circularity d = 4 * pi * area_pixels d / perimeter\<^sup>2)
                   \<and> (perimeter = 0 \<longrightarrow> circularity d = 0)))"
    by blast
qed

theorem degenerate_geometry_fallback_witness:
  "detect_defects sample_cv2 DefectDetector_default 0 sample_heap
     = Inr (sample_result, sample_heap_after)
   \<and> map contour (defects sample_result) = [sample_thin, sample_ell, sample_edge, sample_hook]
   \<and> boundingRect sample_cv2 sample_thin = (0, 0, 61, 3)
   \<and> arcLength sample_cv2 sample_thin True = 124
   \<and> aspect_ratio (defects sample_result ! 0) = 61 / 3
   \<and> circularity (defects sample_result ! 0) = 4 * pi * 120 / 124\<^sup>2
   \<and> boundingRect sample_cv2 sample_ell = (100, 100, 25, 27)
   \<and> arcLength sample_cv2 sample_ell True = 100
   \<and> aspect_ratio (defects sample_result ! 1) = 25 / 27
   \<and> circularity (defects sample_result ! 1) = 4 * pi * 400 / 100\<^sup>2
   \<and> detect_defects degenerate_cv2 (update_min_defect_size 0 DefectDetector_default) 0
       sample_heap
     = Inr (degenerate_result, degenerate_heap_after)
   \<and> boundingRect degenerate_cv2 [(7, 7)] = (0, 0, 0, 0)
   \<and> arcLength degenerate_cv2 [(7, 7)] True = 0
   \<and> map contour (defects degenerate_result) = [[(7, 7)]]
   \<and> map aspect_ratio (defects degenerate_result) = [0]
   \<and> map circularity (defects degenerate_result) = [0]"
proof -
  have ex: "extract_contours sample_cv2 DefectDetector_default (cells sample_heap 0)
      = Inr sample_contours"
    by (simp add: extract_contours_def sample_cv2_def)
  from degenerate_geometry_fallback [of sample_cv2 DefectDetector_default 1 sample_contours
      "([], sample_heap)" sample_heap 0] ex
  obtain res hp' where run: "detect_defects sample_cv2 DefectDetector_default 0 sample_heap
      = Inr (res, hp')"
    and kept: "map contour (defects res)
      = filter (\<lambda>c. min_defect_size DefectDetector_default \<le> contourArea sample_cv2 c * 0.1)
          sample_contours"
    and feat: "\<forall>d \<in> set (defects res).
                 area_pixels d = contourArea sample_cv2 (contour d)
               \<and> (case boundingRect sample_cv2 (contour d) of (x, y, w, h) \<Rightarrow>
                    (h > 0 \<longrightarrow> aspect_ratio d = real_of_int w / real_of_int h)
                  \<and> (h = 0 \<longrightarrow> aspect_ratio d = 0))
               \<and> (let perimeter = arcLength sample_cv2 (contour d) True
                  in (perimeter > 0 \<longrightarrow>
                        circularity d = 4 * pi * area_pixels d / perimeter\<^sup>2)
                   \<and> (perimeter = 0 \<longrightarrow> circularity d = 0))"
    by blast
  from run sample_run have res: "res = sample_result" by simp
  have conts: "map contour (defects sample_result)
      = [sample_thin, sample_ell, sample_edge, sample_hook]"
    using kept unfolding res
    by (simp add: sample_defs DefectDetector_default_def DefectDetector_init_def)
  have c0: "contour (defects sample_result ! 0) = sample_thin"
    and c1: "contour (defects sample_result ! 1) = sample_ell"
    by (simp_all add: sample_result_def sample_defects_def)
  have m0: "boundingRect sample_cv2 sample_thin = (0, 0, 61, 3)"
    "arcLength sample_cv2 sample_thin True = 124" "contourArea sample_cv2 sample_thin = 120"
    by (simp_all add: sample_defs)
  have m1: "boundingRect sample_cv2 sample_ell = (100, 100, 25, 27)"
    "arcLength sample_cv2 sample_ell True = 100" "contourArea sample_cv2 sample_ell = 400"
    by (simp_all add: sample_defs)
  have in0: "defects sample_result ! 0 \<in> set (defects sample_result)"
    and in1: "defects sample_result ! 1 \<in> set (defects sample_result)"
    by (simp_all add: sample_result_def sample_defects_def)
  from feat [unfolded res, rule_format, OF in0]
  have raw0: "area_pixels (defects sample_result ! 0) = 120
      \<and> ((3::int) > 0 \<longrightarrow>
           aspect_ratio (defects sample_result ! 0) = real_of_int 61 / real_of_int 3)
      \<and> ((124::real) > 0 \<longrightarrow>
           circularity (defects sample_result ! 0)
             = 4 * pi * area_pixels (defects sample_result ! 0) / 124\<^sup>2)"
    unfolding c0 m0 by (simp only: prod.case Let_def) blast
  from raw0 have a0: "area_pixels (defects sample_result ! 0) = 120" by (rule conjunct1)
  have pos0: "(3::int) > 0" "(124::real) > 0" by simp_all
  from raw0 pos0(1) have "aspect_ratio (defects sample_result ! 0) = real_of_int 61 / real_of_int 3"
    by blast
  then have f0a: "aspect_ratio (defects sample_result ! 0) = 61 / 3" by simp
  from raw0 pos0(2) have "circularity (defects sample_result ! 0)
             = 4 * pi * area_pixels (defects sample_result ! 0) / 124\<^sup>2"
    by blast
  then have f0c: "circularity (defects sample_result ! 0) = 4 * pi * 120 / 124\<^sup>2"
    by (simp only: a0)
  note f0 = f0a f0c
  from feat [unfolded res, rule_format, OF in1]
  have raw1: "area_pixels (defects sample_result ! 1) = 400
      \<and> ((27::int) > 0 \<longrightarrow>
           aspect_ratio (defects sample_result ! 1) = real_of_int 25 / real_of_int 27)
      \<and> ((100::real) > 0 \<longrightarrow>
           circularity (defects sample_result ! 1)
             = 4 * pi * area_pixels (defects sample_result ! 1) / 100\<^sup>2)"
    unfolding c1 m1 by (simp only: prod.case Let_def) blast
  from raw1 have a1: "area_pixels (defects sample_result ! 1) = 400" by (rule conjunct1)
  have pos1: "(27::int) > 0" "(100::real) > 0" by simp_all
  from raw1 pos1(1) have "aspect_ratio (defects sample_result ! 1) = real_of_int 25 / real_of_int 27"
    by blast
  then have f1a: "aspect_ratio (defects sample_result ! 1) = 25 / 27" by simp
  from raw1 pos1(2) have "circularity (defects sample_result ! 1)
             = 4 * pi * area_pixels (defects sample_result ! 1) / 100\<^sup>2"
    by blast
  then have f1c: "circularity (defects sample_result ! 1) = 4 * pi * 400 / 100\<^sup>2"
    by (simp only: a1)
  note f1 = f1a f1c
  have ex2: "extract_contours degenerate_cv2 (update_min_defect_size 0 DefectDetector_default)
      (cells sample_heap 0) = Inr [[(7, 7)]]"
    by (simp add: extract_contours_def degenerate_cv2_def sample_cv2_def)
  from degenerate_geometry_fallback [of degenerate_cv2
      "update_min_defect_size 0 DefectDetector_default" 1 "[[(7, 7)]]" "([], sample_heap)"
      sample_heap 0] ex2
  obtain res2 hp2 where run2: "detect_defects degenerate_cv2
      (update_min_defect_size 0 DefectDetector_default) 0 sample_heap = Inr (res2, hp2)"
    and feat2: "\<forall>d \<in> set (defects res2).
                 area_pixels d = contourArea degenerate_cv2 (contour d)
               \<and> (case boundingRect degenerate_cv2 (contour d) of (x, y, w, h) \<Rightarrow>
                    (h > 0 \<longrightarrow> aspect_ratio d = real_of_int w / real_of_int h)
                  \<and> (h = 0 \<longrightarrow> aspect_ratio d = 0))
               \<and> (let perimeter = arcLength degenerate_cv2 (contour d) True
                  in (perimeter > 0 \<longrightarrow>
                        circularity d = 4 * pi * area_pixels d / perimeter\<^sup>2)
                   \<and> (perimeter = 0 \<longrightarrow> circularity d = 0))"
    by blast
  from run2 degenerate_run have res2: "res2 = degenerate_result" by simp
  have md: "boundingRect degenerate_cv2 [(7, 7)] = (0, 0, 0, 0)"
    "arcLength degenerate_cv2 [(7, 7)] True = 0"
    by (simp_all add: degenerate_cv2_def sample_defs)
  have cd: "map contour (defects degenerate_result) = [[(7, 7)]]"
    "defects degenerate_result = [hd (defects degenerate_result)]"
    "contour (hd (defects degenerate_result)) = [(7, 7)]"
    "hd (defects degenerate_result) \<in> set (defects degenerate_result)"
    by (simp_all add: degenerate_result_def)
  from feat2 [unfolded res2, rule_format, OF cd(4)]
  have fd: "aspect_ratio (hd (defects degenerate_result)) = 0"
    "circularity (hd (defects degenerate_result)) = 0"
    unfolding cd(3) md by (simp_all add: Let_def)
  have vals: "map aspect_ratio (defects degenerate_result) = [0]"
    "map circularity (defects degenerate_result) = [0]"
    using fd by (simp_all add: degenerate_result_def)
  show ?thesis
    by (intro conjI sample_run conts m0(1,2) f0 m1(1,2) f1 degenerate_run md cd(1) vals)
qed

text \<open>
  Claim C8. \<open>detect_defects\<close> does not mutate its input image. The annotated image
  is a fresh array that starts as a copy of the input; the drawing calls, one group for
  each defect in order, write into that array only; after the call every array that
  existed before, the input among them, has the content it had.
\<close>

theorem detect_defects_input_unchanged:
  assumes "detect_defects cv self image_ref hp = Inr (res, hp')"
    and "image_ref < next_ref hp"
  shows "cells hp' image_ref = cells hp image_ref
       \<and> (\<forall>r < next_ref hp. cells hp' r = cells hp r)
       \<and> annotated_image res = next_ref hp
       \<and> annotated_image res \<noteq> image_ref
       \<and> next_ref hp' = Suc (next_ref hp)
       \<and> hp' = foldl (\<lambda>h d. draw_defect cv (annotated_image res)
                                (contour d) (bbox d) (type d) (area_mm d) h)
                  (snd (ndarray_copy image_ref hp)) (defects res)
       \<and> cells (snd (ndarray_copy image_ref hp)) (annotated_image res) = cells hp image_ref"
proof -
  let ?hp1 = "snd (ndarray_copy image_ref hp)"
  let ?draw = "\<lambda>h d. draw_defect cv (next_ref hp) (contour d) (bbox d) (type d) (area_mm d) h"
  from assms(1) obtain contours ds where
    loop: "for_contours cv self (next_ref hp) contours ([], ?hp1) = Inr (ds, hp')"
    and res: "defects res = ds" "annotated_image res = next_ref hp"
    by (auto simp: detect_defects_Inr_iff)
  from for_contours_spec [OF loop] have hp': "hp' = foldl ?draw ?hp1 ds"
    by auto
  have copy: "next_ref ?hp1 = Suc (next_ref hp)"
    "cells ?hp1 (next_ref hp) = cells hp image_ref"
    "\<forall>r. r \<noteq> next_ref hp \<longrightarrow> cells ?hp1 r = cells hp r"
    by (simp_all add: ndarray_copy_def alloc_def)
  from foldl_draw_frame [of cv "next_ref hp" ?hp1 ds] hp'
  have frame: "next_ref hp' = next_ref ?hp1"
    "\<forall>q. q \<noteq> next_ref hp \<longrightarrow> cells hp' q = cells ?hp1 q"
    by simp_all
  have old: "\<forall>r < next_ref hp. cells hp' r = cells hp r"
    using frame(2) copy(3) by simp
  with assms(2) have "cells hp' image_ref = cells hp image_ref" by blast
  moreover have "next_ref hp \<noteq> image_ref" using assms(2) by simp
  moreover have "next_ref hp' = Suc (next_ref hp)" using frame(1) copy(1) by simp
  ultimately show ?thesis
    unfolding res using old hp' copy(2) by blast
qed

theorem detect_defects_input_unchanged_witness:
  "detect_defects sample_cv2 DefectDetector_default 0 sample_heap
     = Inr (sample_result, sample_heap_after)
   \<and> 0 < next_ref sample_heap
   \<and> cells sample_heap_after 0 = cells sample_heap 0
   \<and> annotated_image sample_result = 1
   \<and> cells sample_heap_after 1 \<noteq> cells sample_heap 0"
proof -
  have valid: "0 < next_ref sample_heap"
    by (simp add: sample_heap_def)
  from detect_defects_input_unchanged [OF sample_run valid]
  have same: "cells sample_heap_after 0 = cells sample_heap 0"
    by (rule conjunct1)
  have ann: "annotated_image sample_result = 1"
    by (simp add: sample_result_def)
  have drawn: "cells sample_heap_after 1 \<noteq> cells sample_heap 0"
    by (simp add: sample_heap_after_def sample_heap_def)
  show ?thesis
    by (intro conjI sample_run valid same ann drawn)
qed

text \<open>
  Claim C6. In every result of \<open>detect_defects\<close>, the keys of \<open>defect_types\<close> are
  exactly the distinct types that occur in \<open>defects\<close>, in the order of their first
  occurrence (\<open>remdups\<close> keeps the last occurrence of each element, so it is applied
  to the reversed list); each key maps to the number of defects of that type; and the
  counts add up to \<open>total_defects\<close>.
\<close>

theorem detect_defects_defect_types:
  assumes "detect_defects cv self image_ref hp = Inr (res, hp')"
  shows "map fst (defect_types (statistics res)) = rev (remdups (rev (map type (defects res))))
       \<and> distinct (map fst (defect_types (statistics res)))
       \<and> set (map fst (defect_types (statistics res))) = type ` set (defects res)
       \<and> (\<forall>k \<in> type ` set (defects res).
             map_of (defect_types (statistics res)) k
               = Some (int (length (filter (\<lambda>d. type d = k) (defects res)))))
       \<and> sum_list (map snd (defect_types (statistics res))) = total_defects (statistics res)"
proof -
  from assms obtain ds where res: "defects res = ds"
    "defect_types (statistics res) = count_types ds"
    "total_defects (statistics res) = int (length ds)"
    by (auto simp: detect_defects_Inr_iff)
  note spec = count_types_spec [of ds]
  from spec have keys: "map fst (count_types ds) = rev (remdups (rev (map type ds)))"
    by blast
  have "distinct (map fst (count_types ds))" unfolding keys by simp
  moreover have "set (map fst (count_types ds)) = type ` set ds" unfolding keys by simp
  moreover have "\<forall>k \<in> type ` set ds.
      map_of (count_types ds) k = Some (int (length (filter (\<lambda>d. type d = k) ds)))"
    using spec by simp
  moreover from spec have "sum_list (map snd (count_types ds)) = int (length ds)" by blast
  ultimately show ?thesis unfolding res using keys by blast
qed

theorem detect_defects_defect_types_witness:
  "detect_defects sample_cv2 DefectDetector_default 0 sample_heap
     = Inr (sample_result, sample_heap_after)
   \<and> map type (defects sample_result)
       = [''Crack'', ''Misalignment'', ''Crack'', ''Irregular Shape'']
   \<and> defect_types (statistics sample_result)
       = [(''Crack'', 2), (''Misalignment'', 1), (''Irregular Shape'', 1)]
   \<and> map fst (defect_types (statistics sample_result))
       = rev (remdups (rev (map type (defects sample_result))))
   \<and> sum_list (map snd (defect_types (statistics sample_result))) = 4"
proof -
  from detect_defects_defect_types [OF sample_run]
  have keys: "map fst (defect_types (statistics sample_result))
       = rev (remdups (rev (map type (defects sample_result))))"
    by (rule conjunct1)
  have types: "map type (defects sample_result)
       = [''Crack'', ''Misalignment'', ''Crack'', ''Irregular Shape'']"
    by (simp add: sample_result_def sample_defects_def)
  have dt: "defect_types (statistics sample_result)
       = [(''Crack'', 2), (''Misalignment'', 1), (''Irregular Shape'', 1)]"
    by (simp add: sample_result_def)
  have total: "sum_list (map snd (defect_types (statistics sample_result))) = 4"
    unfolding dt by simp
  show ?thesis
    by (intro conjI sample_run types dt keys total)
qed

subsection \<open>The extraction pipeline\<close>

text \<open>
  \<open>detect_defects\<close> does not look at the size of the image and handles no exception:
  whatever OpenCV raises in the pipeline is raised by the detector, and an image on
  which the pipeline finds no contour gives an empty result that passes. What the
  pipeline does on an image without extent is decided inside OpenCV.
\<close>

lemma detect_defects_raises:
  "extract_contours cv self (cells hp image_ref) = Inl e \<Longrightarrow>
   detect_defects cv self image_ref hp = Inl e"
  by (simp add: detect_defects_def)

lemma extract_contours_raises:
  "cvtColor_BGR2GRAY cv img = Inl e \<Longrightarrow> extract_contours cv self img = Inl e"
  by (simp add: extract_contours_def)

lemma detect_defects_no_contours:
  "extract_contours cv self (cells hp image_ref) = Inr [] \<Longrightarrow>
   \<exists>res hp'. detect_defects cv self image_ref hp = Inr (res, hp')
     \<and> defects res = [] \<and> total_defects (statistics res) = 0 \<and> pass (statistics res)"
  by (simp add: detect_defects_def ndarray_copy_def alloc_def count_types_def py_sum_def)

subsection \<open>The report\<close>

text \<open>
  Claim C9. The detailed table of the report has exactly one row for each defect, in
  the order of \<open>defects\<close>, after the title row and the header row
  ID, Type, Area (mm2), Area (pixels), X, Y, Width, Height, Aspect Ratio, Circularity.
  The row of the defect at position \<open>k\<close> (from 0) carries the ID \<open>k + 1\<close> and its
  fields in the order of the header; the two areas, the aspect ratio and the circularity
  are rendered with two decimals: a text with exactly two digits after the point whose
  value is within half a hundredth of the number.
\<close>

theorem generate_report_table:
  "let rows = generate_report generated image_name res;
       ds = defects res;
       m = 11 + length (defect_types (statistics res))
   in length rows = m + 2 + length ds
    \<and> rows ! m = [S ''Detailed Defect List'']
    \<and> rows ! (m + 1) =
        [S ''ID'', S ''Type'', S (''Area (mm'' @ sup2 @ '')''), S ''Area (pixels)'',
         S ''X'', S ''Y'', S ''Width'', S ''Height'', S ''Aspect Ratio'', S ''Circularity'']
    \<and> (\<forall>k < length ds.
          rows ! (m + 2 + k) =
            [I (int k + 1),
             S (type (ds ! k)),
             S (format_fixed 2 (area_mm (ds ! k))),
             S (format_fixed 2 (area_pixels (ds ! k))),
             I (fst (bbox (ds ! k))),
             I (fst (snd (bbox (ds ! k)))),
             I (fst (snd (snd (bbox (ds ! k))))),
             I (snd (snd (snd (bbox (ds ! k))))),
             S (format_fixed 2 (aspect_ratio (ds ! k))),
             S (format_fixed 2 (circularity (ds ! k)))]
        \<and> (\<forall>v \<in> {area_mm (ds ! k), area_pixels (ds ! k),
                    aspect_ratio (ds ! k), circularity (ds ! k)}.
              fixed_text 2 (format_fixed 2 v)
            \<and> \<bar>fixed_value 2 (format_fixed 2 v) - v\<bar> \<le> 1 / 200))"
proof -
  let ?pre = "[[S ''Industrial Defect Detection Report''],
      [S ''Generated:'', S generated],
      [S ''Image:'', S image_name],
      [],
      [S ''Summary''],
      [S ''Total Defects:'', I (total_defects (statistics res))],
      [S (''Total Defect Area (mm'' @ sup2 @ ''):''),
       S (format_fixed 2 (total_area_mm (statistics res)))],
      [S ''Status:'', S (if pass (statistics res) then ''PASS'' else ''FAIL'')],
      [],
      [S ''Defect Types Breakdown'']]
     @ map (\<lambda>(defect_type, cnt). [S defect_type, I cnt]) (defect_types (statistics res))
     @ [[]]"
  let ?title = "[S ''Detailed Defect List'']"
  let ?header = "[S ''ID'', S ''Type'', S (''Area (mm'' @ sup2 @ '')''), S ''Area (pixels)'',
         S ''X'', S ''Y'', S ''Width'', S ''Height'', S ''Aspect Ratio'', S ''Circularity'']"
  let ?table = "write_defect_rows 1 (defects res) []"
  let ?m = "11 + length (defect_types (statistics res))"
  have rows: "generate_report generated image_name res = ?pre @ ?title # ?header # ?table"
    unfolding generate_report_eq by simp
  have lp: "length ?pre = ?m" by simp
  have lt: "length ?table = length (defects res)"
    by (simp add: write_defect_rows_eq)
  have a: "length (generate_report generated image_name res) = ?m + 2 + length (defects res)"
    unfolding rows using lt by simp
  have b: "generate_report generated image_name res ! ?m = ?title"
    unfolding rows using nth_append_length [of ?pre] lp by (simp only:)
  have c: "generate_report generated image_name res ! (?m + 1) = ?header"
    unfolding rows using nth_append_length_plus [of ?pre _ 1] lp by (simp only: nth_Cons_Suc nth_Cons_0 One_nat_def)
  have d: "generate_report generated image_name res ! (?m + 2 + k) = ?table ! k" for k
  proof -
    have "(?pre @ ?title # ?header # ?table) ! (length ?pre + Suc (Suc k)) = ?table ! k"
      unfolding nth_append_length_plus by simp
    then show ?thesis unfolding rows lp by (simp add: add.assoc)
  qed
  have e: "?table ! k =
            [I (int k + 1),
             S (type (defects res ! k)),
             S (format_fixed 2 (area_mm (defects res ! k))),
             S (format_fixed 2 (area_pixels (defects res ! k))),
             I (fst (bbox (defects res ! k))),
             I (fst (snd (bbox (defects res ! k)))),
             I (fst (snd (snd (bbox (defects res ! k))))),
             I (snd (snd (snd (bbox (defects res ! k))))),
             S (format_fixed 2 (aspect_ratio (defects res ! k))),
             S (format_fixed 2 (circularity (defects res ! k)))]"
    if "k < length (defects res)" for k
    using that by (simp add: write_defect_rows_eq add.commute)
  have f: "fixed_text 2 (format_fixed 2 v)
            \<and> \<bar>fixed_value 2 (format_fixed 2 v) - v\<bar> \<le> 1 / 200" for v
    using format_fixed_spec [of 2 v] by simp
  show ?thesis
    unfolding Let_def using a b c d e f by simp
qed


theorem generate_report_table_witness:
  "length (generate_report ''2026-11-03 21:26:00'' ''part.png'' report_input) = 17
   \<and> generate_report ''2026-11-03 21:26:00'' ''part.png'' report_input ! 13
       = [S ''Detailed Defect List'']
   \<and> generate_report ''2026-11-03 21:26:00'' ''part.png'' report_input ! 15
       = [I 1, S ''Crack'', S ''12.00'', S ''120.00'', I 0, I 0, I 61, I 3,
          S ''20.33'', S ''0.10'']
   \<and> generate_report ''2026-11-03 21:26:00'' ''part.png'' report_input ! 16
       = [I 2, S ''Hole'', S ''31.45'', S ''314.50'', I 40, I 40, I 21, I 21,
          S ''1.00'', S ''0.90'']"
proof -
  let ?rows = "generate_report ''2026-11-03 21:26:00'' ''part.png'' report_input"
  let ?m = "11 + length (defect_types (statistics report_input))"
  note t = generate_report_table [of "''2026-11-03 21:26:00''" "''part.png''" report_input,
      unfolded Let_def]
  have m: "?m = 13" by (simp add: report_input_def)
  have n: "length (defects report_input) = 2" by (simp add: report_input_def)
  from t have "length ?rows = ?m + 2 + length (defects report_input)" by (rule conjunct1)
  then have len: "length ?rows = 17" unfolding m n by simp
  from t have "?rows ! ?m = [S ''Detailed Defect List'']" by blast
  then have title: "?rows ! 13 = [S ''Detailed Defect List'']" unfolding m .
  from t have rows: "\<forall>k < length (defects report_input).
          ?rows ! (?m + 2 + k) =
            [I (int k + 1),
             S (type (defects report_input ! k)),
             S (format_fixed 2 (area_mm (defects report_input ! k))),
             S (format_fixed 2 (area_pixels (defects report_input ! k))),
             I (fst (bbox (defects report_input ! k))),
             I (fst (snd (bbox (defects report_input ! k)))),
             I (fst (snd (snd (bbox (defects report_input ! k))))),
             I (snd (snd (snd (bbox (defects report_input ! k))))),
             S (format_fixed 2 (aspect_ratio (defects report_input ! k))),
             S (format_fixed 2 (circularity (defects report_input ! k)))]"
    by blast
  have r0: "?rows ! 15
       = [I 1, S ''Crack'', S ''12.00'', S ''120.00'', I 0, I 0, I 61, I 3,
          S ''20.33'', S ''0.10'']"
    using rows [rule_format, of 0] unfolding m n
    apply (simp add: report_input_def)
    apply (simp add: fmt_defs)
    apply (simp add: digit_defs)
    done
  have r1: "?rows ! 16
       = [I 2, S ''Hole'', S ''31.45'', S ''314.50'', I 40, I 40, I 21, I 21,
          S ''1.00'', S ''0.90'']"
    using rows [rule_format, of 1] unfolding m n
    apply (simp add: report_input_def)
    apply (simp add: fmt_defs)
    apply (simp add: digit_defs)
    done
  show ?thesis by (intro conjI len title r0 r1)
qed

end
